theory Spec2Isabelle
  imports Complex_Main "HOL-Library.Word" "HOL-Library.AList"
begin

section \<open>Strings of the program\<close>

text \<open>
  The program is TypeScript: a string is a sequence of UTF-16 code units, \<open>length\<close> counts
  code units, and the patterns of the program are ASCII. A code unit is a 16-bit word.
\<close>

type_synonym cu = "16 word"
type_synonym jsstring = "cu list"

definition ch :: "char \<Rightarrow> cu" where
  "ch c = of_char c"

definition asc :: "string \<Rightarrow> jsstring" where
  "asc s = map ch s"

text \<open>The double quote and the apostrophe, which the patterns name often.\<close>

definition dq :: cu where "dq = 0x22"
definition sq :: cu where "sq = 0x27"

text \<open>
  White space and line terminators of ECMAScript: what \<open>\s\<close> matches and what
  \<open>String.prototype.trim\<close> strips.
\<close>

definition isSpace :: "cu \<Rightarrow> bool" where
  "isSpace c \<longleftrightarrow>
     c = 0x09 \<or> c = 0x0A \<or> c = 0x0B \<or> c = 0x0C \<or> c = 0x0D \<or> c = 0x20 \<or> c = 0xA0 \<or>
     c = 0x1680 \<or> (0x2000 \<le> c \<and> c \<le> 0x200A) \<or> c = 0x2028 \<or> c = 0x2029 \<or>
     c = 0x202F \<or> c = 0x205F \<or> c = 0x3000 \<or> c = 0xFEFF"

definition isLineTerminator :: "cu \<Rightarrow> bool" where
  "isLineTerminator c \<longleftrightarrow> c = 0x0A \<or> c = 0x0D \<or> c = 0x2028 \<or> c = 0x2029"

definition isUpper :: "cu \<Rightarrow> bool" where
  "isUpper c \<longleftrightarrow> 0x41 \<le> c \<and> c \<le> 0x5A"

definition isLower :: "cu \<Rightarrow> bool" where
  "isLower c \<longleftrightarrow> 0x61 \<le> c \<and> c \<le> 0x7A"

definition isDigit :: "cu \<Rightarrow> bool" where
  "isDigit c \<longleftrightarrow> 0x30 \<le> c \<and> c \<le> 0x39"

text \<open>The word characters of \<open>\b\<close>: \<open>[A-Za-z0-9_]\<close>.\<close>

definition isWordChar :: "cu \<Rightarrow> bool" where
  "isWordChar c \<longleftrightarrow> isUpper c \<or> isLower c \<or> isDigit c \<or> c = 0x5F"

definition upperAscii :: "cu \<Rightarrow> cu" where
  "upperAscii c = (if isLower c then c - 0x20 else c)"

definition lowerAscii :: "cu \<Rightarrow> cu" where
  "lowerAscii c = (if isUpper c then c + 0x20 else c)"

text \<open>\<open>String.prototype.trim\<close>.\<close>

definition trim :: "jsstring \<Rightarrow> jsstring" where
  "trim s = rev (dropWhile isSpace (rev (dropWhile isSpace s)))"

text \<open>\<open>String.prototype.startsWith\<close>, \<open>endsWith\<close> and \<open>includes\<close>.\<close>

definition startsWith :: "jsstring \<Rightarrow> jsstring \<Rightarrow> bool" where
  "startsWith s p \<longleftrightarrow> take (length p) s = p"

definition endsWith :: "jsstring \<Rightarrow> jsstring \<Rightarrow> bool" where
  "endsWith s p \<longleftrightarrow> length p \<le> length s \<and> drop (length s - length p) s = p"

fun includesStr :: "jsstring \<Rightarrow> jsstring \<Rightarrow> bool" where
  "includesStr [] p = (p = [])"
| "includesStr (c # s) p = (startsWith (c # s) p \<or> includesStr s p)"

text \<open>
  \<open>Buffer.byteLength(text, 'utf8')\<close>: one byte below U+0080, two below U+0800, four for a
  surrogate pair, three otherwise (a lone surrogate is encoded as U+FFFD).
\<close>

definition isHighSurrogate :: "cu \<Rightarrow> bool" where
  "isHighSurrogate c \<longleftrightarrow> 0xD800 \<le> c \<and> c \<le> 0xDBFF"

definition isLowSurrogate :: "cu \<Rightarrow> bool" where
  "isLowSurrogate c \<longleftrightarrow> 0xDC00 \<le> c \<and> c \<le> 0xDFFF"

fun byteLength :: "jsstring \<Rightarrow> nat" where
  "byteLength [] = 0"
| "byteLength [c] = (if c < 0x80 then 1 else if c < 0x800 then 2 else 3)"
| "byteLength (c # d # s) =
     (if c < 0x80 then 1 + byteLength (d # s)
      else if c < 0x800 then 2 + byteLength (d # s)
      else if isHighSurrogate c \<and> isLowSurrogate d then 4 + byteLength s
      else 3 + byteLength (d # s))"

section \<open>Regular expressions\<close>

text \<open>
  The patterns of the program are written in the syntax below and run by a backtracking
  matcher in the order of ECMAScript: a match state is the code unit before the current
  position (for \<open>\b\<close>), the rest of the input, and the captures; a pattern maps a state to
  the list of the states it can end in, the first choice of the backtracking search first.
\<close>

datatype cset = Single cu | Range cu cu | Space | NonSpace

datatype regex =
    Eps
  | Chr cu
  | Dot
  | Cls "cset list"
  | NCls "cset list"
  | Seq regex regex
  | Alt regex regex
  | Opt regex
  | Star regex
  | LazyStar regex
  | Grp nat regex
  | Eol
  | WordB

type_synonym captures = "nat \<Rightarrow> jsstring option"
type_synonym mstate = "cu option \<times> jsstring \<times> captures"

fun inCset :: "cset \<Rightarrow> cu \<Rightarrow> bool" where
  "inCset (Single a) c = (c = a)"
| "inCset (Range a b) c = (a \<le> c \<and> c \<le> b)"
| "inCset Space c = isSpace c"
| "inCset NonSpace c = (\<not> isSpace c)"

text \<open>
  With the flag \<open>i\<close> two code units match when their canonical forms are equal. The
  canonical form is the upper case, and a code unit outside ASCII never has an ASCII
  canonical form; the patterns are ASCII, so the upper case of ASCII decides.
\<close>

definition chrEq :: "bool \<Rightarrow> cu \<Rightarrow> cu \<Rightarrow> bool" where
  "chrEq ic a c = (if ic then upperAscii a = upperAscii c else a = c)"

definition inClass :: "bool \<Rightarrow> cset list \<Rightarrow> cu \<Rightarrow> bool" where
  "inClass ic cs c =
     (if ic then \<exists>x \<in> set cs. inCset x c \<or> inCset x (upperAscii c) \<or> inCset x (lowerAscii c)
      else \<exists>x \<in> set cs. inCset x c)"

definition atWordBoundary :: "cu option \<Rightarrow> jsstring \<Rightarrow> bool" where
  "atWordBoundary prev s =
     ((case prev of None \<Rightarrow> False | Some a \<Rightarrow> isWordChar a) \<noteq>
      (case s of [] \<Rightarrow> False | c # _ \<Rightarrow> isWordChar c))"

text \<open>
  A repetition gives up an iteration that consumed nothing, as ECMAScript does. No pattern
  of the program has a group inside a repetition, so the reset of the captures at each
  iteration is not modelled.
\<close>

function rmatch :: "bool \<Rightarrow> regex \<Rightarrow> mstate \<Rightarrow> mstate list" where
  "rmatch ic Eps st = [st]"
| "rmatch ic (Chr a) (p, s, cs) =
     (case s of [] \<Rightarrow> [] | c # s' \<Rightarrow> if chrEq ic a c then [(Some c, s', cs)] else [])"
| "rmatch ic Dot (p, s, cs) =
     (case s of [] \<Rightarrow> [] | c # s' \<Rightarrow> if \<not> isLineTerminator c then [(Some c, s', cs)] else [])"
| "rmatch ic (Cls xs) (p, s, cs) =
     (case s of [] \<Rightarrow> [] | c # s' \<Rightarrow> if inClass ic xs c then [(Some c, s', cs)] else [])"
| "rmatch ic (NCls xs) (p, s, cs) =
     (case s of [] \<Rightarrow> [] | c # s' \<Rightarrow> if \<not> inClass ic xs c then [(Some c, s', cs)] else [])"
| "rmatch ic (Seq r1 r2) st = concat (map (rmatch ic r2) (rmatch ic r1 st))"
| "rmatch ic (Alt r1 r2) st = rmatch ic r1 st @ rmatch ic r2 st"
| "rmatch ic (Opt r) (p, s, cs) =
     concat (map (\<lambda>st'. if length (fst (snd st')) < length s then [st'] else [])
                 (rmatch ic r (p, s, cs))) @ [(p, s, cs)]"
| "rmatch ic (Star r) (p, s, cs) =
     concat (map (\<lambda>st'. if length (fst (snd st')) < length s then rmatch ic (Star r) st' else [])
                 (rmatch ic r (p, s, cs))) @ [(p, s, cs)]"
| "rmatch ic (LazyStar r) (p, s, cs) =
     (p, s, cs) #
     concat (map (\<lambda>st'. if length (fst (snd st')) < length s then rmatch ic (LazyStar r) st' else [])
                 (rmatch ic r (p, s, cs)))"
| "rmatch ic (Grp k r) (p, s, cs) =
     map (\<lambda>(p', s', cs'). (p', s', cs'(k \<mapsto> take (length s - length s') s)))
         (rmatch ic r (p, s, cs))"
| "rmatch ic Eol (p, s, cs) = (if s = [] then [(p, s, cs)] else [])"
| "rmatch ic WordB (p, s, cs) = (if atWordBoundary p s then [(p, s, cs)] else [])"
  by pat_completeness auto
termination
  by (relation "measures [\<lambda>(ic, r, st). size r, \<lambda>(ic, r, st). length (fst (snd st))]") auto



lemma rmatch_length:
  "st' \<in> set (rmatch ic r st) \<Longrightarrow> length (fst (snd st')) \<le> length (fst (snd st))"
proof (induction ic r st arbitrary: st' rule: rmatch.induct)
  case (1 ic st) then show ?case by simp
next
  case (2 ic a p s cs) then show ?case by (cases s) (auto split: if_splits)
next
  case (3 ic p s cs) then show ?case by (cases s) (auto split: if_splits)
next
  case (4 ic xs p s cs) then show ?case by (cases s) (auto split: if_splits)
next
  case (5 ic xs p s cs) then show ?case by (cases s) (auto split: if_splits)
next
  case (6 ic r1 r2 st)
  then obtain st1 where a: "st1 \<in> set (rmatch ic r1 st)" and b: "st' \<in> set (rmatch ic r2 st1)"
    by auto
  from "6.IH"(1)[OF a] "6.IH"(2)[OF a b] show ?case by simp
next
  case (7 ic r1 r2 st)
  from "7.prems" have "st' \<in> set (rmatch ic r1 st) \<or> st' \<in> set (rmatch ic r2 st)" by simp
  with "7.IH" show ?case by blast
next
  case (8 ic r p s cs)
  from "8.prems" have "(st' \<in> set (rmatch ic r (p, s, cs)) \<and> length (fst (snd st')) < length s) \<or> st' = (p, s, cs)"
    by (auto split: if_splits)
  then show ?case by auto
next
  case (9 ic r p s cs)
  from "9.prems" have "(\<exists>st1 \<in> set (rmatch ic r (p, s, cs)). length (fst (snd st1)) < length s \<and> st' \<in> set (rmatch ic (Star r) st1)) \<or> st' = (p, s, cs)"
    by (auto split: if_splits)
  then show ?case
  proof
    assume "\<exists>st1 \<in> set (rmatch ic r (p, s, cs)). length (fst (snd st1)) < length s \<and> st' \<in> set (rmatch ic (Star r) st1)"
    then obtain st1 where a: "st1 \<in> set (rmatch ic r (p, s, cs))" and l: "length (fst (snd st1)) < length s"
      and m: "st' \<in> set (rmatch ic (Star r) st1)" by blast
    from "9.IH"(2)[OF a l m] l show ?thesis by simp
  next
    assume "st' = (p, s, cs)" then show ?thesis by simp
  qed
next
  case (10 ic r p s cs)
  from "10.prems" have "(\<exists>st1 \<in> set (rmatch ic r (p, s, cs)). length (fst (snd st1)) < length s \<and> st' \<in> set (rmatch ic (LazyStar r) st1)) \<or> st' = (p, s, cs)"
    by (auto split: if_splits)
  then show ?case
  proof
    assume "\<exists>st1 \<in> set (rmatch ic r (p, s, cs)). length (fst (snd st1)) < length s \<and> st' \<in> set (rmatch ic (LazyStar r) st1)"
    then obtain st1 where a: "st1 \<in> set (rmatch ic r (p, s, cs))" and l: "length (fst (snd st1)) < length s"
      and m: "st' \<in> set (rmatch ic (LazyStar r) st1)" by blast
    from "10.IH"(2)[OF a l m] l show ?thesis by simp
  next
    assume "st' = (p, s, cs)" then show ?thesis by simp
  qed
next
  case (11 ic k r p s cs)
  from "11.prems" obtain p' s' cs' where a: "(p', s', cs') \<in> set (rmatch ic r (p, s, cs))" and b: "st' = (p', s', cs'(k \<mapsto> take (length s - length s') s))"
    by auto
  from "11.IH"[OF a] b show ?case by simp
next
  case (12 ic p s cs) then show ?case by (auto split: if_splits)
next
  case (13 ic p s cs) then show ?case by (auto split: if_splits)
qed

section \<open>Running a pattern\<close>

text \<open>
  A match as \<open>RegExp.prototype.exec\<close> returns it: its index, the matched text
  (\<open>match[0]\<close>) and the groups (\<open>match[k]\<close>, \<open>None\<close> for \<open>undefined\<close>).
\<close>

record rmatchres =
  index :: nat
  matched :: jsstring
  groups :: captures

text \<open>The leftmost match at or after the current position, which has index \<open>i\<close>.\<close>

fun search :: "bool \<Rightarrow> regex \<Rightarrow> cu option \<Rightarrow> jsstring \<Rightarrow> nat \<Rightarrow> rmatchres option" where
  "search ic r p [] i =
     (case rmatch ic r (p, [], Map.empty) of
        [] \<Rightarrow> None
      | st' # _ \<Rightarrow> Some \<lparr>index = i, matched = [], groups = snd (snd st')\<rparr>)"
| "search ic r p (c # s) i =
     (case rmatch ic r (p, c # s, Map.empty) of
        [] \<Rightarrow> search ic r (Some c) s (Suc i)
      | st' # _ \<Rightarrow>
          Some \<lparr>index = i, matched = take (length (c # s) - length (fst (snd st'))) (c # s),
                groups = snd (snd st')\<rparr>)"

text \<open>\<open>re.exec(text)\<close> and \<open>re.test(text)\<close> of a pattern without the flag \<open>g\<close>.\<close>

definition exec :: "bool \<Rightarrow> regex \<Rightarrow> jsstring \<Rightarrow> rmatchres option" where
  "exec ic r text = search ic r None text 0"

definition test :: "bool \<Rightarrow> regex \<Rightarrow> jsstring \<Rightarrow> bool" where
  "test ic r text \<longleftrightarrow> exec ic r text \<noteq> None"

lemma search_bounds:
  "search ic r p s i = Some m \<Longrightarrow> i \<le> index m \<and> index m - i + length (matched m) \<le> length s"
proof (induction s arbitrary: p i)
  case Nil
  then show ?case by (auto split: list.splits)
next
  case (Cons c s)
  show ?case
  proof (cases "rmatch ic r (p, c # s, Map.empty)")
    case Nil
    with Cons.prems have "search ic r (Some c) s (Suc i) = Some m" by simp
    from Cons.IH[OF this] show ?thesis by auto
  next
    case (Cons st' sts)
    with Cons.prems show ?thesis by auto
  qed
qed

text \<open>
  The loop \<open>while ((m = re.exec(text)) !== null) { ... }\<close> of a pattern with the flag \<open>g\<close>:
  each search starts at \<open>lastIndex\<close>, the end of the match before. \<open>exec\<close> does not move
  \<open>lastIndex\<close> past an empty match, so after one the loop finds it again for ever: the
  result is then \<open>None\<close>.
\<close>

function execLoop :: "bool \<Rightarrow> regex \<Rightarrow> cu option \<Rightarrow> jsstring \<Rightarrow> nat \<Rightarrow> rmatchres list option" where
  "execLoop ic r p s i =
     (case search ic r p s i of
        None \<Rightarrow> Some []
      | Some m \<Rightarrow>
          if matched m = [] then None
          else map_option ((#) m)
                 (execLoop ic r (Some (s ! (index m - i + length (matched m) - 1)))
                    (drop (index m - i + length (matched m)) s)
                    (index m + length (matched m))))"
  by pat_completeness auto
termination
proof (relation "measure (\<lambda>(ic, r, p, s, i). length s)")
  fix ic r p s i m
  assume a: "search ic r p s i = Some m" and b: "matched m \<noteq> []"
  from search_bounds[OF a] have "index m - i + length (matched m) \<le> length s" by arith
  moreover from b have "0 < length (matched m)" by simp
  ultimately have "length s - (index m - i + length (matched m)) < length s" by arith
  then
  show "((ic, r, Some (s ! (index m - i + length (matched m) - 1)),
          drop (index m - i + length (matched m)) s, index m + length (matched m)),
         (ic, r, p, s, i)) \<in> measure (\<lambda>(ic, r, p, s, i). length s)"
    by simp
qed simp

text \<open>
  \<open>text.match(re)\<close> of a pattern with the flag \<open>g\<close>: all the matches, left to right;
  after an empty match the search moves one code unit on.
\<close>

function matchAll :: "bool \<Rightarrow> regex \<Rightarrow> cu option \<Rightarrow> jsstring \<Rightarrow> nat \<Rightarrow> rmatchres list" where
  "matchAll ic r p s i =
     (case search ic r p s i of
        None \<Rightarrow> []
      | Some m \<Rightarrow>
          if matched m = [] then
            (if index m - i < length s
             then m # matchAll ic r (Some (s ! (index m - i))) (drop (Suc (index m - i)) s)
                        (Suc (index m))
             else [m])
          else m # matchAll ic r (Some (s ! (index m - i + length (matched m) - 1)))
                     (drop (index m - i + length (matched m)) s)
                     (index m + length (matched m)))"
  by pat_completeness auto
termination
proof (relation "measure (\<lambda>(ic, r, p, s, i). length s)")
  fix ic r p s i m
  assume a: "search ic r p s i = Some m" and b: "matched m \<noteq> []"
  from search_bounds[OF a] have "index m - i + length (matched m) \<le> length s" by arith
  moreover from b have "0 < length (matched m)" by simp
  ultimately have "length s - (index m - i + length (matched m)) < length s" by arith
  then
  show "((ic, r, Some (s ! (index m - i + length (matched m) - 1)),
          drop (index m - i + length (matched m)) s, index m + length (matched m)),
         (ic, r, p, s, i)) \<in> measure (\<lambda>(ic, r, p, s, i). length s)"
    by simp
next
  fix ic r p and s :: jsstring and i and m :: rmatchres
  assume "index m - i < length s"
  then have "length s - Suc (index m - i) < length s" by arith
  then show "((ic, r, Some (s ! (index m - i)), drop (Suc (index m - i)) s, Suc (index m)),
         (ic, r, p, s, i)) \<in> measure (\<lambda>(ic, r, p, s, i). length s)"
    by simp
qed simp


declare execLoop.simps [simp del]

declare matchAll.simps [simp del]

text \<open>
  \<open>match[k]\<close> where the program reads a group. Each pattern whose group the program
  reads has that group on every path through it, so the group took part in every match
  and \<open>undefined\<close> does not arise; the empty string stands for it here.
\<close>

definition grp :: "rmatchres \<Rightarrow> nat \<Rightarrow> jsstring" where
  "grp m k = (case groups m k of None \<Rightarrow> [] | Some g \<Rightarrow> g)"

text \<open>Helpers to write the patterns: a literal string, a sequence, \<open>r+\<close>.\<close>

definition lit :: "string \<Rightarrow> regex" where
  "lit s = foldr (\<lambda>c r. Seq (Chr (ch c)) r) s Eps"

definition seqs :: "regex list \<Rightarrow> regex" where
  "seqs rs = foldr Seq rs Eps"

definition Plus :: "regex \<Rightarrow> regex" where
  "Plus r = Seq r (Star r)"

definition chr :: "char \<Rightarrow> regex" where
  "chr x = Chr (ch x)"

text \<open>The classes the patterns use.\<close>

text \<open>A double quote or an apostrophe, and any code unit but these.\<close>

definition quote :: regex where
  "quote = Cls [Single dq, Single sq]"

definition notQuote :: regex where
  "notQuote = NCls [Single dq, Single sq]"

definition notGt :: regex where \<comment> \<open>\<open>[^>]\<close>\<close>
  "notGt = NCls [Single (ch CHR ''>'')]"

definition ws :: regex where \<comment> \<open>\<open>\s\<close>\<close>
  "ws = Cls [Space]"

definition anyChar :: regex where \<comment> \<open>\<open>[\s\S]\<close>\<close>
  "anyChar = Cls [Space, NonSpace]"

definition letter :: regex where \<comment> \<open>\<open>[a-zA-Z]\<close>\<close>
  "letter = Cls [Range (ch CHR ''a'') (ch CHR ''z''), Range (ch CHR ''A'') (ch CHR ''Z'')]"

definition alnum :: regex where \<comment> \<open>\<open>[a-zA-Z0-9]\<close>\<close>
  "alnum = Cls [Range (ch CHR ''a'') (ch CHR ''z''), Range (ch CHR ''A'') (ch CHR ''Z''),
                Range (ch CHR ''0'') (ch CHR ''9'')]"

text \<open>\<open>String.prototype.split\<close> on one code unit, \<open>Array.prototype.join\<close>, \<open>indexOf\<close>.\<close>

fun splitOn :: "cu \<Rightarrow> jsstring \<Rightarrow> jsstring list" where
  "splitOn d [] = [[]]"
| "splitOn d (x # s) =
     (if x = d then [] # splitOn d s
      else (case splitOn d s of [] \<Rightarrow> [[x]] | y # ys \<Rightarrow> (x # y) # ys))"

fun joinWith :: "jsstring \<Rightarrow> jsstring list \<Rightarrow> jsstring" where
  "joinWith sep [] = []"
| "joinWith sep [x] = x"
| "joinWith sep (x # y # ys) = x @ sep @ joinWith sep (y # ys)"

fun indexOf :: "jsstring \<Rightarrow> cu \<Rightarrow> int" where
  "indexOf [] d = - 1"
| "indexOf (x # s) d = (if x = d then 0 else (let k = indexOf s d in if k < 0 then - 1 else k + 1))"

section \<open>Policy, host and diagnostics\<close>

text \<open>
  The interface \<open>Policy\<close>: two optional sections of optional fields. A \<open>number\<close> is a
  real here (a policy file holds decimal numbers; the rounding of doubles is not modelled).
\<close>

record SeoPolicy =
  titleMin :: "real option"
  titleMax :: "real option"
  metaDescriptionMin :: "real option"
  metaDescriptionMax :: "real option"
  requireCanonical :: "bool option"
  requireJsonLdFor :: "jsstring list option"

record PerfPolicy =
  maxThirdPartyScriptsPerPage :: "real option"
  lcpImageKB :: "real option"
  requireFontDisplaySwap :: "bool option"

record Policy =
  seo :: "SeoPolicy option"
  perf :: "PerfPolicy option"

text \<open>
  What the scan asks of its host besides the policy: the two settings it reads through
  \<open>vscode.workspace.getConfiguration().get(name, default)\<close> (the value \<open>get\<close> returns, the
  default included), and \<open>new URL(s).origin\<close> (\<open>None\<close> when the constructor throws).
\<close>

record Host =
  cfgRequireCanonical :: bool
  cfgMaxThirdPartyScriptsPerPage :: real
  urlOrigin :: "jsstring \<Rightarrow> jsstring option"

datatype severity = Error | Warning | Information | Hint

text \<open>
  A position is built in two ways: \<open>new vscode.Position(line, character)\<close> and
  \<open>doc.positionAt(offset)\<close>. The offset is kept as the program computes it.
\<close>

datatype position = Position nat nat | PositionAt nat

datatype range = Range position position

text \<open>
  A message is a template literal: its text, with the numbers it interpolates kept as
  numbers (\<open>Undefined\<close> for an interpolated \<open>undefined\<close>).
\<close>

datatype part = Txt jsstring | Num real | Undefined

definition tx :: "string \<Rightarrow> part" where
  "tx s = Txt (asc s)"

record diagnostic =
  drange :: range
  message :: "part list"
  code :: string
  severity :: severity
  source :: string

definition buildDiagnostic :: "range \<Rightarrow> part list \<Rightarrow> string \<Rightarrow> severity \<Rightarrow> diagnostic" where
  "buildDiagnostic r msg cd sev =
     \<lparr>drange = r, message = msg, code = cd, severity = sev, source = ''Kanmi''\<rparr>"

text \<open>\<open>new vscode.Range(new vscode.Position(0, 0), new vscode.Position(0, 1))\<close>.\<close>

definition startOfDocument :: range where
  "startOfDocument = Range (Position 0 0) (Position 0 1)"

text \<open>
  \<open>new vscode.Range(doc.positionAt(m.index), doc.positionAt(m.index + m[0].length))\<close>.
\<close>

definition matchRange :: "rmatchres \<Rightarrow> range" where
  "matchRange m = Range (PositionAt (index m)) (PositionAt (index m + length (matched m)))"

text \<open>The function \<open>within\<close>.\<close>

definition within' :: "real \<Rightarrow> real \<Rightarrow> real \<Rightarrow> bool" where
  "within' n mn mx \<longleftrightarrow> n \<ge> mn \<and> n \<le> mx"

section \<open>calculateMaxDOMDepth\<close>

definition tagRegex :: regex where \<comment> \<open>\<open>/<\/?([a-zA-Z][a-zA-Z0-9]*)[^>]*>/g\<close>\<close>
  "tagRegex = seqs [chr CHR ''<'', Opt (chr CHR ''/''), Grp 1 (Seq letter (Star alnum)),
                    Star notGt, chr CHR ''>'']"

definition selfClosingTags :: "jsstring list" where
  "selfClosingTags = map asc [''area'', ''base'', ''br'', ''col'', ''embed'', ''hr'', ''img'',
     ''input'', ''link'', ''meta'', ''param'', ''source'', ''track'', ''wbr'']"

text \<open>
  One iteration of the loop, on the state \<open>(maxDepth, currentDepth)\<close>. The tag name is
  ASCII letters and digits, so \<open>toLowerCase\<close> is the lower case of ASCII.
\<close>

definition depthStep :: "int \<times> int \<Rightarrow> rmatchres \<Rightarrow> int \<times> int" where
  "depthStep st m =
     (let maxDepth = fst st; currentDepth = snd st;
          fullTag = matched m; tagName = map lowerAscii (grp m 1) in
      if tagName \<in> set selfClosingTags \<or> endsWith fullTag (asc ''/>'') then (maxDepth, currentDepth)
      else if startsWith fullTag (asc ''</'') then (maxDepth, max 0 (currentDepth - 1))
      else (max maxDepth (currentDepth + 1), currentDepth + 1))"

text \<open>
  The body of the loop does not touch the pattern, so the loop is the list of the
  matches, with the body run over it from the left. \<open>None\<close>: the loop never ends.
\<close>

definition calculateMaxDOMDepth :: "jsstring \<Rightarrow> int option" where
  "calculateMaxDOMDepth html =
     map_option (\<lambda>ms. fst (foldl depthStep (0, 0) ms)) (execLoop False tagRegex None html 0)"

section \<open>The patterns of scanDocument\<close>

definition alts :: "regex list \<Rightarrow> regex" where
  "alts rs = (case rs of [] \<Rightarrow> Eps | _ \<Rightarrow> foldr Alt (butlast rs) (last rs))"

definition supportedRe :: regex where \<comment> \<open>\<open>/\.(jsx?|tsx?|html)$/\<close>\<close>
  "supportedRe = seqs [chr CHR ''.'',
     Grp 1 (alts [Seq (lit ''js'') (Opt (chr CHR ''x'')), Seq (lit ''ts'') (Opt (chr CHR ''x'')),
                  lit ''html'']), Eol]"

definition jsxRe :: regex where \<comment> \<open>\<open>/\.(jsx|tsx)$/\<close>\<close>
  "jsxRe = seqs [chr CHR ''.'', Grp 1 (alts [lit ''jsx'', lit ''tsx'']), Eol]"

definition titleRe :: regex where \<comment> \<open>\<open>/<title>([\s\S]*?)<\/title>/i\<close>\<close>
  "titleRe = seqs [lit ''<title>'', Grp 1 (LazyStar anyChar), lit ''</title>'']"

definition headRe :: regex where \<comment> \<open>\<open>/<head>/i\<close>\<close>
  "headRe = lit ''<head>''"

text \<open>
  \<^verbatim>\<open>/<meta\s+name=["']description["']\s+content=["']([^"']+)["'][^>]*>/i\<close>
\<close>

definition metaDescRe :: regex where
  "metaDescRe = seqs [lit ''<meta'', Plus ws, lit ''name='', quote, lit ''description'', quote,
     Plus ws, lit ''content='', quote, Grp 1 (Plus notQuote), quote, Star notGt, chr CHR ''>'']"

text \<open>
  \<^verbatim>\<open>/<link\s+rel=["']canonical["']\s+href=["'][^"']+["'][^>]*>/i\<close>
\<close>

definition canonicalRe :: regex where
  "canonicalRe = seqs [lit ''<link'', Plus ws, lit ''rel='', quote, lit ''canonical'', quote,
     Plus ws, lit ''href='', quote, Plus notQuote, quote, Star notGt, chr CHR ''>'']"

text \<open>
  \<^verbatim>\<open>/<script\s+type=["']application\/ld\+json["']>/\<close>
\<close>

definition jsonLdRe :: regex where
  "jsonLdRe = seqs [lit ''<script'', Plus ws, lit ''type='', quote, lit ''application/ld+json'',
     quote, chr CHR ''>'']"

definition sepClass :: regex where \<comment> \<open>\<open>[\s_-]\<close>\<close>
  "sepClass = Cls [Space, Single (ch CHR ''_''), Single (ch CHR ''-'')]"

definition productTextRe :: regex where
  \<comment> \<open>\<open>/(product|pdp|sku|price|add[\s_-]?to[\s_-]?cart)/i\<close>\<close>
  "productTextRe = Grp 1 (alts [lit ''product'', lit ''pdp'', lit ''sku'', lit ''price'',
     seqs [lit ''add'', Opt sepClass, lit ''to'', Opt sepClass, lit ''cart'']])"

definition productFileRe :: regex where \<comment> \<open>\<open>/(product|pdp|sku)/\<close>\<close>
  "productFileRe = Grp 1 (alts [lit ''product'', lit ''pdp'', lit ''sku''])"

definition articleTextRe :: regex where \<comment> \<open>\<open>/(blog|article|news|post)/i\<close>\<close>
  "articleTextRe = Grp 1 (alts [lit ''blog'', lit ''article'', lit ''news'', lit ''post''])"

definition articleFileRe :: regex where \<comment> \<open>\<open>/(blog|article)/\<close>\<close>
  "articleFileRe = Grp 1 (alts [lit ''blog'', lit ''article''])"

text \<open>
  \<^verbatim>\<open>/<meta\s+property=["']og:title["']\s+content=["'][^"']+["'][^>]*>/i\<close>, and the
  same for \<open>og:description\<close>, \<open>og:image\<close> and \<open>og:url\<close>.
\<close>

definition ogRe :: "string \<Rightarrow> regex" where
  "ogRe name = seqs [lit ''<meta'', Plus ws, lit ''property='', quote, lit name, quote,
     Plus ws, lit ''content='', quote, Plus notQuote, quote, Star notGt, chr CHR ''>'']"

definition openingTagRe :: regex where \<comment> \<open>\<open>/<[a-zA-Z][^/>]*>/g\<close>\<close>
  "openingTagRe = seqs [chr CHR ''<'', letter,
     Star (NCls [Single (ch CHR ''/''), Single (ch CHR ''>'')]), chr CHR ''>'']"

definition headSectionRe :: regex where \<comment> \<open>\<open>/<head[^>]*>([\s\S]*?)<\/head>/i\<close>\<close>
  "headSectionRe = seqs [lit ''<head'', Star notGt, chr CHR ''>'', Grp 1 (LazyStar anyChar),
     lit ''</head>'']"

definition charsetRe :: regex where \<comment> \<open>\<open>/<meta\s+charset=/i\<close>\<close>
  "charsetRe = seqs [lit ''<meta'', Plus ws, lit ''charset='']"

definition titleOpenRe :: regex where \<comment> \<open>\<open>/<title>/i\<close>\<close>
  "titleOpenRe = lit ''<title>''"

text \<open>
  \<^verbatim>\<open>/<link\s+[^>]*rel=["']stylesheet["']/i\<close>
\<close>

definition stylesheetRe :: regex where
  "stylesheetRe = seqs [lit ''<link'', Plus ws, Star notGt, lit ''rel='', quote,
     lit ''stylesheet'', quote]"

definition firstScriptRe :: regex where \<comment> \<open>\<open>/<script[^>]*>/i\<close>\<close>
  "firstScriptRe = seqs [lit ''<script'', Star notGt, chr CHR ''>'']"

definition imgTagRe :: regex where \<comment> \<open>\<open>/<img\s+([^>]*?)>/gi\<close>\<close>
  "imgTagRe = seqs [lit ''<img'', Plus ws, Grp 1 (LazyStar notGt), chr CHR ''>'']"

text \<open>
  \<^verbatim>\<open>/\balt\s*=\s*["'][^"']*["']/\<close>, \<^verbatim>\<open>/\bwidth\s*=/\<close>, \<^verbatim>\<open>/\bheight\s*=/\<close>,
  \<^verbatim>\<open>/\bloading\s*=\s*["'](lazy|eager)["']/i\<close>
\<close>

definition altRe :: regex where
  "altRe = seqs [WordB, lit ''alt'', Star ws, chr CHR ''='', Star ws, quote, Star notQuote, quote]"

definition widthRe :: regex where
  "widthRe = seqs [WordB, lit ''width'', Star ws, chr CHR ''='']"

definition heightRe :: regex where
  "heightRe = seqs [WordB, lit ''height'', Star ws, chr CHR ''='']"

definition loadingRe :: regex where
  "loadingRe = seqs [WordB, lit ''loading'', Star ws, chr CHR ''='', Star ws, quote,
     Grp 1 (alts [lit ''lazy'', lit ''eager'']), quote]"

definition nextImgRe :: regex where \<comment> \<open>\<open>/<Image\s+([^>]*?)\/?>/gi\<close>\<close>
  "nextImgRe = seqs [lit ''<Image'', Plus ws, Grp 1 (LazyStar notGt), Opt (chr CHR ''/''),
     chr CHR ''>'']"

text \<open>
  \<^verbatim>\<open>/\bsizes\s*=/\<close>, \<^verbatim>\<open>/\bpriority\b/\<close>, \<^verbatim>\<open>/\bpriority\s*=\s*{?true}?/\<close>,
  \<^verbatim>\<open>/\bsrc\s*=\s*{?["']([^"']+)["']}?/\<close>, \<^verbatim>\<open>/(hero|banner|masthead)/i\<close>. A brace that
  opens no quantifier is a literal brace.
\<close>

definition sizesRe :: regex where
  "sizesRe = seqs [WordB, lit ''sizes'', Star ws, chr CHR ''='']"

definition priorityRe :: regex where
  "priorityRe = seqs [WordB, lit ''priority'', WordB]"

definition priorityTrueRe :: regex where
  "priorityTrueRe = seqs [WordB, lit ''priority'', Star ws, chr CHR ''='', Star ws,
     Opt (chr CHR ''{''), lit ''true'', Opt (chr CHR ''}'')]"

definition srcRe :: regex where
  "srcRe = seqs [WordB, lit ''src'', Star ws, chr CHR ''='', Star ws, Opt (chr CHR ''{''), quote,
     Grp 1 (Plus notQuote), quote, Opt (chr CHR ''}'')]"

definition heroRe :: regex where
  "heroRe = Grp 1 (alts [lit ''hero'', lit ''banner'', lit ''masthead''])"

definition fontFaceRe :: regex where \<comment> \<open>\<open>/@font-face\s*{[\s\S]*?}/gi\<close>\<close>
  "fontFaceRe = seqs [lit ''@font-face'', Star ws, chr CHR ''{'', LazyStar anyChar, chr CHR ''}'']"

definition fontDisplayRe :: regex where \<comment> \<open>\<open>/font-display\s*:\s*swap/\<close>\<close>
  "fontDisplayRe = seqs [lit ''font-display'', Star ws, chr CHR '':'', Star ws, lit ''swap'']"

text \<open>
  \<^verbatim>\<open>/<link\s+[^>]*rel=["']preload["'][^>]*as=["']font["'][^>]*>/gi\<close>
\<close>

definition preloadFontRe :: regex where
  "preloadFontRe = seqs [lit ''<link'', Plus ws, Star notGt, lit ''rel='', quote, lit ''preload'',
     quote, Star notGt, lit ''as='', quote, lit ''font'', quote, Star notGt, chr CHR ''>'']"

text \<open>
  \<^verbatim>\<open>/import\s+.*?\s+from\s+['"]([^'"]+)['"]|require\s*\(\s*['"]([^'"]+)['"]\s*\)/g\<close>
\<close>

definition importRegex :: regex where
  "importRegex = Alt
     (seqs [lit ''import'', Plus ws, LazyStar Dot, Plus ws, lit ''from'', Plus ws, quote,
            Grp 1 (Plus notQuote), quote])
     (seqs [lit ''require'', Star ws, chr CHR ''('', Star ws, quote, Grp 2 (Plus notQuote), quote,
            Star ws, chr CHR '')''])"

text \<open>
  \<^verbatim>\<open>/<script[^>]+src=["']([^"']+)["'][^>]*>/gi\<close>
\<close>

definition scriptRegex :: regex where
  "scriptRegex = seqs [lit ''<script'', Plus notGt, lit ''src='', quote, Grp 1 (Plus notQuote),
     quote, Star notGt, chr CHR ''>'']"

text \<open>
  \<^verbatim>\<open>/<link\s+[^>]*rel=["']preconnect["']/i\<close> and
  \<^verbatim>\<open>/<link\s+[^>]*rel=["']stylesheet["'][^>]*href=["']([^"']+)["']/gi\<close>
\<close>

definition preconnectRe :: regex where
  "preconnectRe = seqs [lit ''<link'', Plus ws, Star notGt, lit ''rel='', quote,
     lit ''preconnect'', quote]"

definition stylesheetRegex :: regex where
  "stylesheetRegex = seqs [lit ''<link'', Plus ws, Star notGt, lit ''rel='', quote,
     lit ''stylesheet'', quote, Star notGt, lit ''href='', quote, Grp 1 (Plus notQuote), quote]"

section \<open>scanDocument\<close>

text \<open>\<open>section?.field ?? dflt\<close> on the interface \<open>Policy\<close>.\<close>

definition orDefault :: "'s option \<Rightarrow> ('s \<Rightarrow> 'a option) \<Rightarrow> 'a \<Rightarrow> 'a" where
  "orDefault sec field dflt =
     (case sec of None \<Rightarrow> dflt | Some s \<Rightarrow> (case field s of None \<Rightarrow> dflt | Some v \<Rightarrow> v))"

subsection \<open>Framework detection\<close>

definition isNextJs :: "jsstring \<Rightarrow> bool" where
  "isNextJs text \<longleftrightarrow> includesStr text (asc ''next/head'') \<or>
     includesStr text (asc ''from '' @ [dq] @ asc ''next'' @ [dq]) \<or> includesStr text (asc ''from '' @ [sq] @ asc ''next'' @ [sq])"

definition isReact :: "jsstring \<Rightarrow> bool" where
  "isReact text \<longleftrightarrow> includesStr text (asc ''import React'') \<or>
     includesStr text (asc ''from '' @ [dq] @ asc ''react'' @ [dq]) \<or> includesStr text (asc ''from '' @ [sq] @ asc ''react'' @ [sq])"

definition isJsxFile :: "jsstring \<Rightarrow> bool" where
  "isJsxFile fileName \<longleftrightarrow> test False jsxRe fileName"

subsection \<open>SEO rules\<close>

definition theTitleMin :: "Policy \<Rightarrow> real" where \<comment> \<open>\<open>policy.seo?.titleMin ?? 30\<close>\<close>
  "theTitleMin policy = orDefault (seo policy) titleMin 30"

definition theTitleMax :: "Policy \<Rightarrow> real" where \<comment> \<open>\<open>policy.seo?.titleMax ?? 60\<close>\<close>
  "theTitleMax policy = orDefault (seo policy) titleMax 60"

definition titleRule :: "Policy \<Rightarrow> jsstring \<Rightarrow> jsstring \<Rightarrow> diagnostic list" where
  "titleRule policy text fileName =
     (case exec True titleRe text of
        Some titleMatch \<Rightarrow>
          (let title = trim (grp titleMatch 1) in
           if \<not> within' (real (length title)) (theTitleMin policy) (theTitleMax policy)
           then [buildDiagnostic (matchRange titleMatch)
                   [tx ''Title length is '', Num (real (length title)),
                    tx '' characters; aim for '', Num (theTitleMin policy),
                    Txt ([0x2013]), Num (theTitleMax policy),
                    tx '' characters.'']
                   ''SEO_TITLE_LENGTH'' Warning]
           else [])
      | None \<Rightarrow>
          if test True headRe text \<and> \<not> isNextJs text \<and> \<not> isJsxFile fileName
          then [buildDiagnostic startOfDocument
                  [Txt (asc ''Missing <title>. Add a focused, query'' @ [0x2011] @ asc ''matching title (30'' @ [0x2013] @ asc ''60 characters).'')]
                  ''SEO_TITLE_MISSING'' Warning]
          else [])"

definition theDescMin :: "Policy \<Rightarrow> real" where
  \<comment> \<open>\<open>policy.seo?.metaDescriptionMin ?? 50\<close>\<close>
  "theDescMin policy = orDefault (seo policy) metaDescriptionMin 50"

definition theDescMax :: "Policy \<Rightarrow> real" where
  \<comment> \<open>\<open>policy.seo?.metaDescriptionMax ?? 160\<close>\<close>
  "theDescMax policy = orDefault (seo policy) metaDescriptionMax 160"

definition metaDescRule :: "Policy \<Rightarrow> jsstring \<Rightarrow> diagnostic list" where
  "metaDescRule policy text =
     (case exec True metaDescRe text of
        Some metaDescMatch \<Rightarrow>
          (let desc = trim (grp metaDescMatch 1) in
           if \<not> within' (real (length desc)) (theDescMin policy) (theDescMax policy)
           then [buildDiagnostic (matchRange metaDescMatch)
                   [tx ''Meta description is '', Num (real (length desc)),
                    tx '' characters; aim for '', Num (theDescMin policy),
                    Txt ([0x2013]), Num (theDescMax policy),
                    tx '' characters.'']
                   ''SEO_META_DESC_LENGTH'' Information]
           else [])
      | None \<Rightarrow>
          [buildDiagnostic startOfDocument
             [Txt (asc ''Missing meta description. Add a 50'' @ [0x2013] @ asc ''160 character description to improve click'' @ [0x2011] @ asc ''through rate.'')]
             ''SEO_META_DESC_MISSING'' Warning])"

text \<open>
  \<open>policy.seo?.requireCanonical ?? vscode.workspace.getConfiguration().get(...)\<close>
\<close>

definition theRequireCanonical :: "Host \<Rightarrow> Policy \<Rightarrow> bool" where
  "theRequireCanonical host policy = orDefault (seo policy) requireCanonical (cfgRequireCanonical host)"

definition canonicalRule :: "Host \<Rightarrow> Policy \<Rightarrow> jsstring \<Rightarrow> diagnostic list" where
  "canonicalRule host policy text =
     (if theRequireCanonical host policy then
        (case exec True canonicalRe text of
           None \<Rightarrow>
             [buildDiagnostic startOfDocument
                [Txt (asc ''Missing canonical link. Add <link rel='' @ [dq] @ asc ''canonical'' @ [dq] @ asc '' href='' @ [dq] @ [0x2026] @ [dq] @ asc ''> to declare a preferred URL.'')]
                ''SEO_CANONICAL_MISSING'' Warning]
         | Some canonicalMatch \<Rightarrow> [])
      else [])"

text \<open>
  \<open>doc.fileName.toLowerCase()\<close>. The two patterns run on the result look for ASCII
  letters only. Outside ASCII, the code units whose lower case has an ASCII letter are
  U+212A (lower case \<open>k\<close>) and U+0130 (lower case \<open>i\<close>, then U+0307); every other one
  has a lower case outside ASCII and is left as it is.
\<close>

definition toLowerCase :: "jsstring \<Rightarrow> jsstring" where
  "toLowerCase s =
     concat (map (\<lambda>x. if x = 0x212A then [0x6B] else if x = 0x0130 then [0x69, 0x0307]
                       else [lowerAscii x]) s)"

definition theRequireJsonLdFor :: "Policy \<Rightarrow> jsstring list" where
  \<comment> \<open>\<open>policy.seo?.requireJsonLdFor ?? []\<close>\<close>
  "theRequireJsonLdFor policy = orDefault (seo policy) requireJsonLdFor []"

definition jsonLdRule :: "Policy \<Rightarrow> jsstring \<Rightarrow> jsstring \<Rightarrow> diagnostic list" where
  "jsonLdRule policy text fileName =
     (let requireTypes = theRequireJsonLdFor policy in
      if length requireTypes \<noteq> 0 then
        (let hasJsonLd = test False jsonLdRe text;
             fileLower = toLowerCase fileName;
             isProductLike = (test True productTextRe text \<or> test False productFileRe fileLower);
             isArticleLike = (test True articleTextRe text \<or> test False articleFileRe fileLower)
         in (if asc ''Product'' \<in> set requireTypes \<and> isProductLike \<and> \<not> hasJsonLd
             then [buildDiagnostic startOfDocument
                     [Txt (asc ''Product page likely missing JSON'' @ [0x2011] @ asc ''LD (Product). Consider adding product structured data.'')]
                     ''SEO_JSONLD_PRODUCT_MISSING'' Information]
             else []) @
            (if asc ''Article'' \<in> set requireTypes \<and> isArticleLike \<and> \<not> hasJsonLd
             then [buildDiagnostic startOfDocument
                     [Txt (asc ''Article page likely missing JSON'' @ [0x2011] @ asc ''LD (Article). Consider adding article structured data.'')]
                     ''SEO_JSONLD_ARTICLE_MISSING'' Information]
             else []))
      else [])"

text \<open>
  The object \<open>ogTags\<close> in the order of its keys, and \<open>missingOg\<close>: the keys whose tag
  is absent.
\<close>

definition ogTags :: "jsstring \<Rightarrow> (string \<times> bool) list" where
  "ogTags text =
     [(''og:title'', test True (ogRe ''og:title'') text),
      (''og:description'', test True (ogRe ''og:description'') text),
      (''og:image'', test True (ogRe ''og:image'') text),
      (''og:url'', test True (ogRe ''og:url'') text)]"

definition missingOg :: "jsstring \<Rightarrow> string list" where
  "missingOg text = map fst (filter (\<lambda>(tag, present). \<not> present) (ogTags text))"

definition ogRule :: "jsstring \<Rightarrow> diagnostic list" where
  "ogRule text =
     (if length (missingOg text) \<ge> 3 \<and> test True headRe text
      then [buildDiagnostic startOfDocument
              [tx ''Missing '', Num (real (length (missingOg text))),
               tx ''/4 Open Graph tags: '',
               Txt (joinWith (asc '', '') (map asc (missingOg text))),
               tx ''. These improve social media sharing.'']
              ''SEO_OG_TAGS_MISSING'' Information]
      else [])"

subsection \<open>Size, element count and depth\<close>

definition htmlSizeKB :: "jsstring \<Rightarrow> real" where
  \<comment> \<open>\<open>Buffer.byteLength(text, 'utf8') / 1024\<close>\<close>
  "htmlSizeKB text = real (byteLength text) / 1024"

definition htmlSizeRule :: "jsstring \<Rightarrow> diagnostic list" where
  "htmlSizeRule text =
     (if htmlSizeKB text > 100 \<and> htmlSizeKB text \<le> 150
      then [buildDiagnostic startOfDocument
              [tx ''HTML file is '', Num (real_of_int (round (htmlSizeKB text))),
               tx ''KB. Consider code splitting or removing inline data. (Web Almanac p90: 147KB)'']
              ''PERF_HTML_SIZE_LARGE'' Warning]
      else if htmlSizeKB text > 150 \<and> htmlSizeKB text \<le> 10000
      then [buildDiagnostic startOfDocument
              [tx ''HTML file is '', Num (real_of_int (round (htmlSizeKB text))),
               tx ''KB - larger than 90% of websites. This impacts parsing performance.'']
              ''PERF_HTML_SIZE_EXCESSIVE'' Error]
      else if htmlSizeKB text > 10000
      then [buildDiagnostic startOfDocument
              [tx ''HTML file is '', Num (real_of_int (round (htmlSizeKB text / 1024))),
               Txt (asc ''MB. Approaching Google'' @ [sq] @ asc ''s 15MB WRS limit. Consider pagination or dynamic loading.'')]
              ''WRS_HTML_SIZE_APPROACHING_LIMIT'' Warning]
      else []) @
     (if htmlSizeKB text > 14000
      then [buildDiagnostic startOfDocument
              [tx ''HTML file is '', Num (real_of_int (round (htmlSizeKB text / 1024))),
               tx ''MB. Google WRS will truncate at 15MB. URGENT: Reduce file size!'']
              ''WRS_HTML_SIZE_CRITICAL'' Error]
      else [])"

text \<open>\<open>(text.match(/<[a-zA-Z][^/>]*>/g) || []).length\<close>\<close>

definition totalElements :: "jsstring \<Rightarrow> nat" where
  "totalElements text = length (matchAll False openingTagRe None text 0)"

definition domSizeRule :: "jsstring \<Rightarrow> diagnostic list" where
  "domSizeRule text =
     (if totalElements text > 800
      then [buildDiagnostic startOfDocument
              [tx ''DOM has '', Num (real (totalElements text)),
               tx '' elements. Google WRS recommends < 800 for optimal rendering. Consider pagination or lazy loading.'']
              ''WRS_DOM_SIZE_WARNING'' Information]
      else []) @
     (if totalElements text > 1500
      then [buildDiagnostic startOfDocument
              [tx ''DOM has '', Num (real (totalElements text)),
               tx '' elements. Google WRS hard limit is 1,500. Page may not render correctly in search results.'']
              ''WRS_DOM_SIZE_EXCEEDED'' Error]
      else [])"

definition domDepthRule :: "int \<Rightarrow> diagnostic list" where
  "domDepthRule maxDepth =
     (if maxDepth > 25
      then [buildDiagnostic startOfDocument
              [tx ''DOM depth is '', Num (real_of_int maxDepth),
               tx '' levels. Google WRS recommends < 32 to avoid rendering issues. Flatten your HTML structure.'']
              ''WRS_DOM_DEPTH_WARNING'' Information]
      else []) @
     (if maxDepth > 32
      then [buildDiagnostic startOfDocument
              [tx ''DOM depth is '', Num (real_of_int maxDepth),
               tx '' levels - exceeds Google WRS limit of 32. Googlebot may fail to render this page.'']
              ''WRS_DOM_DEPTH_EXCEEDED'' Error]
      else [])"

subsection \<open>Head element ordering\<close>

definition headOrderRule :: "jsstring \<Rightarrow> diagnostic list" where
  "headOrderRule text =
     (case exec True headSectionRe text of
        None \<Rightarrow> []
      | Some headMatch \<Rightarrow>
          (let headContent = grp headMatch 1;
               headStart = int (index headMatch) + indexOf (matched headMatch) (ch CHR ''>'') + 1;
               charsetMatch = exec True charsetRe headContent;
               titleMatchPos = exec True titleOpenRe headContent;
               firstStyleMatch = exec True stylesheetRe headContent;
               firstScriptMatch = exec True firstScriptRe headContent
           in (case charsetMatch of
                 None \<Rightarrow> []
               | Some cm \<Rightarrow>
                   if index cm > 100
                   then (let charsetPos = PositionAt (nat (headStart + int (index cm))) in
                         [buildDiagnostic (Range charsetPos charsetPos)
                            [tx ''<meta charset> should be the first element in <head> to prevent re-parsing.'']
                            ''SEO_CHARSET_ORDERING'' Warning])
                   else []) @
              (case (titleMatchPos, firstStyleMatch) of
                 (Some tm, Some sm) \<Rightarrow>
                   if index tm > index sm
                   then (let titlePos = PositionAt (nat (headStart + int (index tm))) in
                         [buildDiagnostic (Range titlePos titlePos)
                            [tx ''<title> should appear before stylesheets for faster discovery by search engines.'']
                            ''SEO_TITLE_ORDERING'' Information])
                   else []
               | _ \<Rightarrow> []) @
              (case (titleMatchPos, firstScriptMatch) of
                 (Some tm, Some sm) \<Rightarrow>
                   if index tm > index sm
                   then (let titlePos = PositionAt (nat (headStart + int (index tm))) in
                         [buildDiagnostic (Range titlePos titlePos)
                            [tx ''<title> should appear before blocking scripts to avoid crawl delays.'']
                            ''SEO_TITLE_SCRIPT_ORDERING'' Information])
                   else []
               | _ \<Rightarrow> [])))"

subsection \<open>Images\<close>

definition imgDiagnostics :: "rmatchres \<Rightarrow> diagnostic list" where
  "imgDiagnostics m =
     (let attrs = grp m 1;
          hasAlt = test False altRe attrs;
          hasWidth = test False widthRe attrs;
          hasHeight = test False heightRe attrs;
          hasLoading = test True loadingRe attrs
      in (if \<not> hasAlt
          then [buildDiagnostic (matchRange m)
                  [tx ''Image missing alt attribute. Add a meaningful `alt` for accessibility and SEO.'']
                  ''SEO_IMG_ALT_MISSING'' Warning]
          else []) @
         (if \<not> hasWidth \<or> \<not> hasHeight
          then [buildDiagnostic (matchRange m)
                  [tx ''Image missing width/height attributes. Explicit dimensions prevent layout shift.'']
                  ''PERF_IMG_DIMENSIONS_MISSING'' Warning]
          else []) @
         (if \<not> hasLoading
          then [buildDiagnostic (matchRange m)
                  [Txt (asc ''Consider adding loading='' @ [dq] @ asc ''lazy'' @ [dq] @ asc '' to defer off'' @ [0x2011] @ asc ''screen images.'')]
                  ''PERF_IMG_LOADING_MISSING'' Information]
          else []))"

definition imgRule :: "jsstring \<Rightarrow> diagnostic list option" where
  "imgRule text = map_option (\<lambda>ms. concat (map imgDiagnostics ms)) (execLoop True imgTagRe None text 0)"

definition nextImgDiagnostics :: "rmatchres \<Rightarrow> diagnostic list" where
  "nextImgDiagnostics m =
     (let attrs = grp m 1;
          hasSizes = test False sizesRe attrs;
          hasPriority = (test False priorityRe attrs \<or> test False priorityTrueRe attrs);
          src = (case exec False srcRe attrs of None \<Rightarrow> [] | Some srcMatch \<Rightarrow> grp srcMatch 1);
          likelyLcp = (test True heroRe src \<or> test False priorityRe attrs)
      in (if \<not> hasSizes
          then [buildDiagnostic (matchRange m)
                  [tx ''next/image missing `sizes` attribute. Without it, the browser may fetch incorrect resolutions.'']
                  ''PERF_NEXTIMG_SIZES_MISSING'' Warning]
          else []) @
         (if likelyLcp \<and> \<not> hasPriority
          then [buildDiagnostic (matchRange m)
                  [tx ''Likely LCP image missing `priority`. Add `priority` to improve initial load.'']
                  ''PERF_NEXTIMG_PRIORITY_MISSING'' Information]
          else []))"

definition nextImgRule :: "jsstring \<Rightarrow> diagnostic list option" where
  "nextImgRule text =
     map_option (\<lambda>ms. concat (map nextImgDiagnostics ms)) (execLoop True nextImgRe None text 0)"

subsection \<open>Fonts\<close>

definition fontFaceDiagnostics :: "rmatchres \<Rightarrow> diagnostic list" where
  "fontFaceDiagnostics fmatch =
     (let block = matched fmatch in
      if \<not> test False fontDisplayRe block
      then [buildDiagnostic (matchRange fmatch)
              [tx ''Custom font is missing `font-display: swap`. This can block rendering.'']
              ''PERF_FONT_DISPLAY_MISSING'' Warning]
      else [])"

definition fontFaceRule :: "jsstring \<Rightarrow> diagnostic list option" where
  "fontFaceRule text =
     map_option (\<lambda>ms. concat (map fontFaceDiagnostics ms)) (execLoop True fontFaceRe None text 0)"

definition preloadFontMatches :: "jsstring \<Rightarrow> rmatchres list" where
  "preloadFontMatches text = matchAll True preloadFontRe None text 0"

definition fontPreloadRule :: "jsstring \<Rightarrow> diagnostic list" where
  "fontPreloadRule text =
     (if length (preloadFontMatches text) > 4
      then [buildDiagnostic startOfDocument
              [tx ''Too many font preloads ('', Num (real (length (preloadFontMatches text))),
               tx ''). Limit preloaded fonts to critical subsets.'']
              ''PERF_FONT_PRELOAD_EXCESS'' Information]
      else [])"

subsection \<open>Heavy dependencies\<close>

text \<open>The table \<open>heavyLibraries\<close>: package name, size in KB, alternative.\<close>

definition heavyLibraries :: "(jsstring \<times> nat \<times> jsstring option) list" where
  "heavyLibraries =
     [(asc ''moment'', (67, Some (asc ''date-fns (2KB)''))),
      (asc ''moment-timezone'', (190, Some (asc ''date-fns-tz (11KB)''))),
      (asc ''lodash'', (72, Some (asc ''lodash-es + tree-shaking''))),
      (asc ''jquery'', (87, Some (asc ''vanilla JS or cash-dom (6KB)''))),
      (asc ''@material-ui/core'', (350, Some (asc ''@mui/material with tree-shaking''))),
      (asc ''rxjs'', (166, Some (asc ''rxjs + specific operators only''))),
      (asc ''xlsx'', (800, Some (asc ''xlsx-populate (smaller)''))),
      (asc ''chart.js'', (150, Some (asc ''chartist (10KB)''))),
      (asc ''three'', (580, Some (asc ''three + tree-shaking''))),
      (asc ''d3'', (250, Some (asc ''d3 + specific modules only'')))]"

text \<open>
  The table is an object literal, so \<open>heavyLibraries[packageName]\<close> also finds what the
  object inherits from \<open>Object.prototype\<close>: a function or an object, which is truthy and
  whose \<open>size\<close> and \<open>alternative\<close> are \<open>undefined\<close>.
\<close>

definition objectPrototypeNames :: "jsstring list" where
  "objectPrototypeNames = map asc [''constructor'', ''__defineGetter__'', ''__defineSetter__'',
     ''hasOwnProperty'', ''__lookupGetter__'', ''__lookupSetter__'', ''isPrototypeOf'',
     ''propertyIsEnumerable'', ''toString'', ''valueOf'', ''__proto__'', ''toLocaleString'']"

datatype libEntry = Own nat "jsstring option" | Inherited

definition lookupLibrary :: "jsstring \<Rightarrow> libEntry option" where
  "lookupLibrary packageName =
     (case map_of heavyLibraries packageName of
        Some (sz, alternative) \<Rightarrow> Some (Own sz alternative)
      | None \<Rightarrow> if packageName \<in> set objectPrototypeNames then Some Inherited else None)"

text \<open>
  \<open>importMatch[1] || importMatch[2]\<close>, and the package name: the first two segments of a
  path that starts with \<open>@\<close>, the first segment of any other.
\<close>

definition importPathOf :: "rmatchres \<Rightarrow> jsstring" where
  "importPathOf importMatch = (if grp importMatch 1 \<noteq> [] then grp importMatch 1 else grp importMatch 2)"

definition packageNameOf :: "jsstring \<Rightarrow> jsstring" where
  "packageNameOf importPath =
     (if startsWith importPath (asc ''@'')
      then joinWith (asc ''/'') (take 2 (splitOn (ch CHR ''/'') importPath))
      else (case splitOn (ch CHR ''/'') importPath of [] \<Rightarrow> [] | x # _ \<Rightarrow> x))"

text \<open>
  One iteration of the import loop, on \<open>totalEstimatedBundleSize\<close> (\<open>None\<close> for \<open>NaN\<close>,
  which adding \<open>undefined\<close> gives) and the diagnostics pushed so far.
\<close>

definition importStep :: "nat option \<times> diagnostic list \<Rightarrow> rmatchres \<Rightarrow> nat option \<times> diagnostic list" where
  "importStep st importMatch =
     (let sizeSoFar = fst st; diags = snd st;
          importPath = importPathOf importMatch;
          packageName = packageNameOf importPath
      in case lookupLibrary packageName of
           None \<Rightarrow> (sizeSoFar, diags)
         | Some (Own sz alternative) \<Rightarrow>
             (map_option (\<lambda>t. t + sz) sizeSoFar,
              diags @ [buildDiagnostic (matchRange importMatch)
                ([tx ''Heavy dependency: '', Txt packageName, tx '' (~'', Num (real sz), tx ''KB). ''] @
                 (case alternative of
                    Some a \<Rightarrow> if a \<noteq> [] then [tx ''Consider '', Txt a]
                              else [tx ''Use tree-shaking or code splitting.'']
                  | None \<Rightarrow> [tx ''Use tree-shaking or code splitting.'']))
                ''WRS_HEAVY_DEPENDENCY'' Information])
         | Some Inherited \<Rightarrow>
             (None,
              diags @ [buildDiagnostic (matchRange importMatch)
                [tx ''Heavy dependency: '', Txt packageName, tx '' (~'', Undefined, tx ''KB). '',
                 tx ''Use tree-shaking or code splitting.'']
                ''WRS_HEAVY_DEPENDENCY'' Information]))"

definition importLoop :: "jsstring \<Rightarrow> (nat option \<times> diagnostic list) option" where
  "importLoop text = map_option (foldl importStep (Some 0, [])) (execLoop False importRegex None text 0)"

text \<open>A comparison with \<open>NaN\<close> is false.\<close>

definition exceeds :: "nat option \<Rightarrow> nat \<Rightarrow> bool" where
  "exceeds x n = (case x of None \<Rightarrow> False | Some t \<Rightarrow> t > n)"

definition numOf :: "nat option \<Rightarrow> part" where
  "numOf x = (case x of None \<Rightarrow> tx ''NaN'' | Some t \<Rightarrow> Num (real t))"

definition bundleSizeRule :: "nat option \<Rightarrow> diagnostic list" where
  "bundleSizeRule totalEstimatedBundleSize =
     (if exceeds totalEstimatedBundleSize 500
      then [buildDiagnostic startOfDocument
              [tx ''Estimated JS bundle size: ~'', numOf totalEstimatedBundleSize,
               tx ''KB from heavy dependencies. Google WRS recommends < 1MB total. Consider code splitting.'']
              ''WRS_JS_BUNDLE_SIZE_WARNING'' Warning]
      else []) @
     (if exceeds totalEstimatedBundleSize 1000
      then [buildDiagnostic startOfDocument
              [tx ''Estimated JS bundle size: ~'', numOf totalEstimatedBundleSize,
               tx ''KB - exceeds Google WRS 1MB recommendation. This will impact crawl budget and rendering.'']
              ''WRS_JS_BUNDLE_SIZE_EXCEEDED'' Error]
      else [])"

definition bundleRule :: "jsstring \<Rightarrow> diagnostic list option" where
  "bundleRule text =
     map_option (\<lambda>(totalEstimatedBundleSize, diags). diags @ bundleSizeRule totalEstimatedBundleSize)
       (importLoop text)"

subsection \<open>Scripts and resource hints\<close>

text \<open>
  The set \<open>externalDomains\<close> keeps the order of insertion: a list without repetition.
\<close>

definition addDomain :: "jsstring \<Rightarrow> jsstring list \<Rightarrow> jsstring list" where
  "addDomain d ds = (if d \<in> set ds then ds else ds @ [d])"

text \<open>
  \<open>try { if (src.startsWith('http')) { externalDomains.add(new URL(src).origin) } } catch {}\<close>
\<close>

definition trackDomain :: "Host \<Rightarrow> jsstring \<Rightarrow> jsstring list \<Rightarrow> jsstring list" where
  "trackDomain host src externalDomains =
     (if startsWith src (asc ''http'')
      then (case urlOrigin host src of None \<Rightarrow> externalDomains
            | Some origin \<Rightarrow> addDomain origin externalDomains)
      else externalDomains)"

record scriptState =
  scriptCount :: nat
  externalDomains :: "jsstring list"
  scriptDiags :: "diagnostic list"

definition scriptStep :: "Host \<Rightarrow> scriptState \<Rightarrow> rmatchres \<Rightarrow> scriptState" where
  "scriptStep host st sMatch =
     (let tag = matched sMatch;
          src = grp sMatch 1;
          attrs = tag;
          hasAsyncOrDefer = (test False (seqs [WordB, lit ''async'', WordB]) attrs \<or>
                             test False (seqs [WordB, lit ''defer'', WordB]) attrs)
      in \<lparr>scriptCount = scriptCount st + 1,
          externalDomains = trackDomain host src (externalDomains st),
          scriptDiags = scriptDiags st @
            (if \<not> hasAsyncOrDefer
             then [buildDiagnostic (matchRange sMatch)
                     [tx ''Script tag without `async` or `defer`. This can block rendering.'']
                     ''PERF_SCRIPT_BLOCKING'' Warning]
             else [])\<rparr>)"

definition scriptLoop :: "Host \<Rightarrow> jsstring \<Rightarrow> scriptState option" where
  "scriptLoop host text =
     map_option (foldl (scriptStep host) \<lparr>scriptCount = 0, externalDomains = [], scriptDiags = []\<rparr>)
       (execLoop True scriptRegex None text 0)"

text \<open>
  \<open>policy.perf?.maxThirdPartyScriptsPerPage ?? vscode.workspace.getConfiguration().get(...)\<close>
\<close>

definition theMaxTP :: "Host \<Rightarrow> Policy \<Rightarrow> real" where
  "theMaxTP host policy =
     orDefault (perf policy) maxThirdPartyScriptsPerPage (cfgMaxThirdPartyScriptsPerPage host)"

definition scriptCountRule :: "Host \<Rightarrow> Policy \<Rightarrow> nat \<Rightarrow> diagnostic list" where
  "scriptCountRule host policy n =
     (if real n > theMaxTP host policy
      then [buildDiagnostic startOfDocument
              [tx ''Document contains '', Num (real n), tx '' script tags. Budget is '',
               Num (theMaxTP host policy), tx ''.'']
              ''PERF_SCRIPT_COUNT_EXCEEDED'' Warning]
      else [])"

definition stylesheetLoop :: "Host \<Rightarrow> jsstring \<Rightarrow> jsstring list \<Rightarrow> jsstring list option" where
  "stylesheetLoop host text domains =
     map_option (foldl (\<lambda>ds styleMatch. trackDomain host (grp styleMatch 1) ds) domains)
       (execLoop True stylesheetRegex None text 0)"

definition preconnectRule :: "jsstring \<Rightarrow> jsstring list \<Rightarrow> diagnostic list" where
  "preconnectRule text domainSet =
     (let hasPreconnect = test True preconnectRe text in
      if length domainSet > 0 \<and> \<not> hasPreconnect
      then (let domains = take 3 domainSet in
            [buildDiagnostic startOfDocument
               [Txt (asc ''Consider adding <link rel='' @ [dq] @ asc ''preconnect'' @ [dq] @ asc ''> for external domains: '')
                , Txt (joinWith (asc '', '') domains),
                tx ''. This reduces DNS/TLS overhead.'']
               ''PERF_PRECONNECT_MISSING'' Information])
      else [])"

subsection \<open>The scan\<close>

text \<open>
  The body of \<open>scanDocument\<close> past its two gates: the diagnostics it hands to
  \<open>collection.set\<close>, in the order they are pushed. The policy is what \<open>readPolicy()\<close>
  returned, seen through its declared type. \<open>None\<close>: one of the loops never ends.
\<close>

definition scan :: "Host \<Rightarrow> Policy \<Rightarrow> jsstring \<Rightarrow> jsstring \<Rightarrow> diagnostic list option" where
  "scan host policy text fileName =
     (case calculateMaxDOMDepth text of None \<Rightarrow> None | Some maxDepth \<Rightarrow>
      case imgRule text of None \<Rightarrow> None | Some imgDiags \<Rightarrow>
      case nextImgRule text of None \<Rightarrow> None | Some nextImgDiags \<Rightarrow>
      case fontFaceRule text of None \<Rightarrow> None | Some fontFaceDiags \<Rightarrow>
      case bundleRule text of None \<Rightarrow> None | Some bundleDiags \<Rightarrow>
      case scriptLoop host text of None \<Rightarrow> None | Some scripts \<Rightarrow>
      case stylesheetLoop host text (externalDomains scripts) of None \<Rightarrow> None | Some domainSet \<Rightarrow>
        Some (titleRule policy text fileName @
              metaDescRule policy text @
              canonicalRule host policy text @
              jsonLdRule policy text fileName @
              ogRule text @
              htmlSizeRule text @
              domSizeRule text @
              domDepthRule maxDepth @
              headOrderRule text @
              imgDiags @
              nextImgDiags @
              fontFaceDiags @
              fontPreloadRule text @
              bundleDiags @
              scriptDiags scripts @
              scriptCountRule host policy (scriptCount scripts) @
              preconnectRule text domainSet))"

text \<open>
  \<open>scanDocument\<close> with its gates: a file of another kind, or of more than 500KB, is not
  scanned and its diagnostics are left as they were (\<open>Skipped\<close>).
\<close>

datatype outcome = Skipped | NeverReturns | Diagnostics "diagnostic list"

definition fileSizeKB :: "jsstring \<Rightarrow> real" where
  "fileSizeKB text = real (byteLength text) / 1024"

definition scanDocument :: "Host \<Rightarrow> Policy \<Rightarrow> jsstring \<Rightarrow> jsstring \<Rightarrow> outcome" where
  "scanDocument host policy text fileName =
     (if \<not> test False supportedRe fileName then Skipped
      else if fileSizeKB text > 500 then Skipped
      else (case scan host policy text fileName of
              None \<Rightarrow> NeverReturns
            | Some diagnostics \<Rightarrow> Diagnostics diagnostics))"

section \<open>Every loop of the scan ends\<close>

text \<open>
  A pattern that consumes at least one code unit on every path has no empty match, so
  the loop over its matches moves on at each iteration.
\<close>

fun mustConsume :: "regex \<Rightarrow> bool" where
  "mustConsume (Chr a) = True"
| "mustConsume Dot = True"
| "mustConsume (Cls xs) = True"
| "mustConsume (NCls xs) = True"
| "mustConsume (Seq r1 r2) = (mustConsume r1 \<or> mustConsume r2)"
| "mustConsume (Alt r1 r2) = (mustConsume r1 \<and> mustConsume r2)"
| "mustConsume (Grp k r) = mustConsume r"
| "mustConsume _ = False"

lemma rmatch_Seq_elem:
  "st'' \<in> set (rmatch ic (Seq r1 r2) st) \<longleftrightarrow>
     (\<exists>st'. st' \<in> set (rmatch ic r1 st) \<and> st'' \<in> set (rmatch ic r2 st'))"
  by auto

lemma rmatch_Grp_elem:
  "st' \<in> set (rmatch ic (Grp k r) (p, s, cs)) \<Longrightarrow>
     \<exists>p' s' cs'. (p', s', cs') \<in> set (rmatch ic r (p, s, cs)) \<and>
        st' = (p', s', cs'(k \<mapsto> take (length s - length s') s))"
  by auto

lemma rmatch_consumes:
  "mustConsume r \<Longrightarrow> st' \<in> set (rmatch ic r st) \<Longrightarrow> length (fst (snd st')) < length (fst (snd st))"
proof (induction r arbitrary: st st')
  case (Chr a)
  then show ?case by (cases st; cases "fst (snd st)") (auto split: if_splits)
next
  case Dot
  then show ?case by (cases st; cases "fst (snd st)") (auto split: if_splits)
next
  case (Cls xs)
  then show ?case by (cases st; cases "fst (snd st)") (auto split: if_splits)
next
  case (NCls xs)
  then show ?case by (cases st; cases "fst (snd st)") (auto split: if_splits)
next
  case (Seq r1 r2)
  from Seq.prems(2) obtain st1 where a: "st1 \<in> set (rmatch ic r1 st)" and b: "st' \<in> set (rmatch ic r2 st1)"
    unfolding rmatch_Seq_elem by blast
  from Seq.prems(1) have "mustConsume r1 \<or> mustConsume r2" by simp
  then show ?case
  proof
    assume "mustConsume r1"
    from Seq.IH(1)[OF this a] rmatch_length[OF b] show ?thesis by simp
  next
    assume "mustConsume r2"
    from Seq.IH(2)[OF this b] rmatch_length[OF a] show ?thesis by simp
  qed
next
  case (Alt r1 r2)
  from Alt.prems(1) have m: "mustConsume r1" "mustConsume r2" by simp_all
  from Alt.prems(2) have "st' \<in> set (rmatch ic r1 st) \<or> st' \<in> set (rmatch ic r2 st)" by simp
  then show ?case using Alt.IH(1)[OF m(1)] Alt.IH(2)[OF m(2)] by blast
next
  case (Grp k r)
  obtain p s cs where st: "st = (p, s, cs)" by (cases st)
  from rmatch_Grp_elem[OF Grp.prems(2)[unfolded st]] obtain p' s' cs' where
    a: "(p', s', cs') \<in> set (rmatch ic r (p, s, cs))" and b: "st' = (p', s', cs'(k \<mapsto> take (length s - length s') s))"
    by blast
  from Grp.IH[OF _ a] Grp.prems(1) b st show ?case by simp
qed simp_all

lemma search_matched_nonempty:
  "mustConsume r \<Longrightarrow> search ic r p s i = Some m \<Longrightarrow> matched m \<noteq> []"
proof (induction s arbitrary: p i)
  case Nil
  show ?case
  proof (cases "rmatch ic r (p, [], Map.empty)")
    case Nil with Nil.prems show ?thesis by simp
  next
    case (Cons st' sts)
    then have "st' \<in> set (rmatch ic r (p, [], Map.empty))" by simp
    from rmatch_consumes[OF Nil.prems(1) this] show ?thesis by simp
  qed
next
  case (Cons x s)
  show ?case
  proof (cases "rmatch ic r (p, x # s, Map.empty)")
    case Nil
    with Cons.prems(2) have "search ic r (Some x) s (Suc i) = Some m" by simp
    from Cons.IH[OF Cons.prems(1) this] show ?thesis .
  next
    case (Cons st' sts)
    then have "st' \<in> set (rmatch ic r (p, x # s, Map.empty))" by simp
    from rmatch_consumes[OF Cons.prems(1) this] have "length (fst (snd st')) < length (x # s)" by simp
    moreover from Cons Cons.prems(2) have "matched m = take (length (x # s) - length (fst (snd st'))) (x # s)"
      by auto
    ultimately show ?thesis by (cases "length (x # s) - length (fst (snd st'))") auto
  qed
qed

lemma execLoop_total:
  "mustConsume r \<Longrightarrow> \<exists>ms. execLoop ic r p s i = Some ms"
proof (induction ic r p s i rule: execLoop.induct)
  case (1 ic r p s i)
  show ?case
  proof (cases "search ic r p s i")
    case None
    then show ?thesis by (subst execLoop.simps) simp
  next
    case (Some m)
    from search_matched_nonempty[OF "1.prems" Some] have ne: "matched m \<noteq> []" .
    from "1.IH"[OF Some ne "1.prems"] obtain ms where
      "execLoop ic r (Some (s ! (index m - i + length (matched m) - 1)))
          (drop (index m - i + length (matched m)) s) (index m + length (matched m)) = Some ms" by blast
    with Some ne show ?thesis by (subst execLoop.simps) simp
  qed
qed

lemma mustConsume_patterns:
  "mustConsume tagRegex" "mustConsume imgTagRe" "mustConsume nextImgRe" "mustConsume fontFaceRe"
  "mustConsume importRegex" "mustConsume scriptRegex" "mustConsume stylesheetRegex"
  by (simp_all add: tagRegex_def imgTagRe_def nextImgRe_def fontFaceRe_def importRegex_def
        scriptRegex_def stylesheetRegex_def seqs_def lit_def chr_def)

lemma scan_total: "\<exists>ds. scan host policy text fileName = Some ds"
proof -
  from execLoop_total[OF mustConsume_patterns(1)] obtain d where d: "calculateMaxDOMDepth text = Some d"
    unfolding calculateMaxDOMDepth_def by fastforce
  from execLoop_total[OF mustConsume_patterns(2)] obtain a where a: "imgRule text = Some a"
    unfolding imgRule_def by fastforce
  from execLoop_total[OF mustConsume_patterns(3)] obtain b where b: "nextImgRule text = Some b"
    unfolding nextImgRule_def by fastforce
  from execLoop_total[OF mustConsume_patterns(4)] obtain c where c: "fontFaceRule text = Some c"
    unfolding fontFaceRule_def by fastforce
  from execLoop_total[OF mustConsume_patterns(5)] obtain e where e: "bundleRule text = Some e"
    unfolding bundleRule_def importLoop_def by fastforce
  from execLoop_total[OF mustConsume_patterns(6)] obtain f where f: "scriptLoop host text = Some f"
    unfolding scriptLoop_def by fastforce
  from execLoop_total[OF mustConsume_patterns(7)] obtain g where g: "stylesheetLoop host text (externalDomains f) = Some g"
    unfolding stylesheetLoop_def by fastforce
  from d a b c e f g show ?thesis by (simp add: scan_def)
qed


section \<open>The shape of the output\<close>

lemma scan_Some:
  assumes "scan host policy text fileName = Some ds"
  obtains maxDepth imgDiags nextImgDiags fontFaceDiags bundleDiags scripts domainSet where
    "calculateMaxDOMDepth text = Some maxDepth" "imgRule text = Some imgDiags"
    "nextImgRule text = Some nextImgDiags" "fontFaceRule text = Some fontFaceDiags"
    "bundleRule text = Some bundleDiags" "scriptLoop host text = Some scripts"
    "stylesheetLoop host text (externalDomains scripts) = Some domainSet"
    "ds = titleRule policy text fileName @ metaDescRule policy text @ canonicalRule host policy text @
          jsonLdRule policy text fileName @ ogRule text @ htmlSizeRule text @ domSizeRule text @
          domDepthRule maxDepth @ headOrderRule text @ imgDiags @ nextImgDiags @ fontFaceDiags @
          fontPreloadRule text @ bundleDiags @ scriptDiags scripts @
          scriptCountRule host policy (scriptCount scripts) @ preconnectRule text domainSet"
  using assms by (auto simp: scan_def split: option.splits)

text \<open>
  The codes of the title rule, the Open Graph rule and the payload-size rule; no other
  rule of the scan uses one of them.
\<close>

definition ownedCodes :: "string set" where
  "ownedCodes = {''SEO_TITLE_LENGTH'', ''SEO_TITLE_MISSING'', ''SEO_OG_TAGS_MISSING'',
     ''PERF_HTML_SIZE_LARGE'', ''PERF_HTML_SIZE_EXCESSIVE'', ''WRS_HTML_SIZE_APPROACHING_LIMIT'',
     ''WRS_HTML_SIZE_CRITICAL''}"

definition others :: "diagnostic list \<Rightarrow> bool" where
  "others ds \<longleftrightarrow> (\<forall>d \<in> set ds. code d \<notin> ownedCodes)"

lemma others_Nil [simp]: "others []"
  by (simp add: others_def)

lemma others_append [simp]: "others (xs @ ys) \<longleftrightarrow> others xs \<and> others ys"
  by (auto simp: others_def)

lemma others_single [simp]: "others [buildDiagnostic r m k s] \<longleftrightarrow> k \<notin> ownedCodes"
  by (simp add: others_def buildDiagnostic_def)

lemma others_concat_map: "(\<And>m. others (f m)) \<Longrightarrow> others (concat (map f ms))"
  by (induction ms) auto

lemma others_filter:
  "others xs \<Longrightarrow> (\<And>k. P k \<Longrightarrow> k \<in> ownedCodes) \<Longrightarrow> filter (\<lambda>d. P (code d)) xs = []"
  by (induction xs) (auto simp: others_def)

lemma others_code: "others xs \<Longrightarrow> d \<in> set xs \<Longrightarrow> k \<in> ownedCodes \<Longrightarrow> code d \<noteq> k"
  by (auto simp: others_def)

lemma metaDescRule_others: "others (metaDescRule policy text)"
  by (simp add: metaDescRule_def Let_def ownedCodes_def split: option.splits)

lemma canonicalRule_others: "others (canonicalRule host policy text)"
  by (simp add: canonicalRule_def ownedCodes_def split: option.splits)

lemma jsonLdRule_others: "others (jsonLdRule policy text fileName)"
  by (simp add: jsonLdRule_def Let_def ownedCodes_def)

lemma domSizeRule_others: "others (domSizeRule text)"
  by (simp add: domSizeRule_def ownedCodes_def)

lemma domDepthRule_others: "others (domDepthRule n)"
  by (simp add: domDepthRule_def ownedCodes_def)

lemma headOrderRule_others: "others (headOrderRule text)"
  by (simp add: headOrderRule_def Let_def ownedCodes_def split: option.splits)

lemma imgDiagnostics_others: "others (imgDiagnostics m)"
  by (simp add: imgDiagnostics_def Let_def ownedCodes_def)

lemma imgRule_others: "imgRule text = Some ds \<Longrightarrow> others ds"
  using others_concat_map[of imgDiagnostics, OF imgDiagnostics_others] by (auto simp: imgRule_def)

lemma nextImgDiagnostics_others: "others (nextImgDiagnostics m)"
  by (simp add: nextImgDiagnostics_def Let_def ownedCodes_def)

lemma nextImgRule_others: "nextImgRule text = Some ds \<Longrightarrow> others ds"
  using others_concat_map[of nextImgDiagnostics, OF nextImgDiagnostics_others]
  by (auto simp: nextImgRule_def)

lemma fontFaceDiagnostics_others: "others (fontFaceDiagnostics m)"
  by (simp add: fontFaceDiagnostics_def Let_def ownedCodes_def)

lemma fontFaceRule_others: "fontFaceRule text = Some ds \<Longrightarrow> others ds"
  using others_concat_map[of fontFaceDiagnostics, OF fontFaceDiagnostics_others]
  by (auto simp: fontFaceRule_def)

lemma fontPreloadRule_others: "others (fontPreloadRule text)"
  by (simp add: fontPreloadRule_def ownedCodes_def)

lemma importStep_others: "others (snd st) \<Longrightarrow> others (snd (importStep st m))"
  by (simp add: importStep_def Let_def ownedCodes_def split: option.splits libEntry.splits)

lemma importFold_others: "others (snd st) \<Longrightarrow> others (snd (foldl importStep st ms))"
  by (induction ms arbitrary: st) (simp_all add: importStep_others)

lemma bundleSizeRule_others: "others (bundleSizeRule t)"
  by (simp add: bundleSizeRule_def ownedCodes_def)

lemma bundleRule_others: "bundleRule text = Some ds \<Longrightarrow> others ds"
proof -
  assume a: "bundleRule text = Some ds"
  then obtain st where st: "importLoop text = Some st" and ds: "ds = snd st @ bundleSizeRule (fst st)"
    by (cases "importLoop text") (auto simp: bundleRule_def split: prod.splits)
  from st obtain ms where ms: "st = foldl importStep (Some 0, []) ms"
    by (auto simp: importLoop_def)
  have "others (snd (foldl importStep (Some 0, []) ms))"
    by (rule importFold_others) simp
  with bundleSizeRule_others ds ms show ?thesis by simp
qed

lemma scriptStep_others: "others (scriptDiags st) \<Longrightarrow> others (scriptDiags (scriptStep host st m))"
  by (simp add: scriptStep_def Let_def ownedCodes_def)

lemma scriptFold_others: "others (scriptDiags st) \<Longrightarrow> others (scriptDiags (foldl (scriptStep host) st ms))"
  by (induction ms arbitrary: st) (simp_all add: scriptStep_others)

lemma scriptLoop_others: "scriptLoop host text = Some st \<Longrightarrow> others (scriptDiags st)"
proof -
  assume "scriptLoop host text = Some st"
  then obtain ms where
    "st = foldl (scriptStep host) \<lparr>scriptCount = 0, externalDomains = [], scriptDiags = []\<rparr> ms"
    by (auto simp: scriptLoop_def)
  then show ?thesis
    using scriptFold_others[of "\<lparr>scriptCount = 0, externalDomains = [], scriptDiags = []\<rparr>" host ms]
    by simp
qed

lemma scriptCountRule_others: "others (scriptCountRule host policy n)"
  by (simp add: scriptCountRule_def ownedCodes_def)

lemma preconnectRule_others: "others (preconnectRule text ds)"
  by (simp add: preconnectRule_def Let_def ownedCodes_def)

text \<open>The output of the scan, split at the three rules.\<close>

lemma scan_split:
  assumes "scan host policy text fileName = Some ds"
  obtains a b where
    "ds = titleRule policy text fileName @ a @ ogRule text @ htmlSizeRule text @ b"
    "others a" "others b"
proof -
  from assms obtain maxDepth imgDiags nextImgDiags fontFaceDiags bundleDiags scripts domainSet where
    s: "imgRule text = Some imgDiags"
    "nextImgRule text = Some nextImgDiags" "fontFaceRule text = Some fontFaceDiags"
    "bundleRule text = Some bundleDiags" "scriptLoop host text = Some scripts"
    "ds = titleRule policy text fileName @ metaDescRule policy text @ canonicalRule host policy text @
          jsonLdRule policy text fileName @ ogRule text @ htmlSizeRule text @ domSizeRule text @
          domDepthRule maxDepth @ headOrderRule text @ imgDiags @ nextImgDiags @ fontFaceDiags @
          fontPreloadRule text @ bundleDiags @ scriptDiags scripts @
          scriptCountRule host policy (scriptCount scripts) @ preconnectRule text domainSet"
    by (rule scan_Some)
  let ?a = "metaDescRule policy text @ canonicalRule host policy text @ jsonLdRule policy text fileName"
  let ?b = "domSizeRule text @
          domDepthRule maxDepth @ headOrderRule text @ imgDiags @ nextImgDiags @ fontFaceDiags @
          fontPreloadRule text @ bundleDiags @ scriptDiags scripts @
          scriptCountRule host policy (scriptCount scripts) @ preconnectRule text domainSet"
  have 1: "ds = titleRule policy text fileName @ ?a @ ogRule text @ htmlSizeRule text @ ?b"
    using s(6) by simp
  have 2: "others ?a"
    by (simp add: metaDescRule_others canonicalRule_others jsonLdRule_others)
  have 3: "others ?b"
    by (simp add: domSizeRule_others domDepthRule_others headOrderRule_others
        imgRule_others[OF s(1)] nextImgRule_others[OF s(2)] fontFaceRule_others[OF s(3)]
        fontPreloadRule_others bundleRule_others[OF s(4)] scriptLoop_others[OF s(5)]
        scriptCountRule_others preconnectRule_others)
  from 1 2 3 show ?thesis by (rule that)
qed



lemma byteLength_ascii: "\<forall>x \<in> set s. x < 0x80 \<Longrightarrow> byteLength s = length s"
  by (induction s rule: byteLength.induct) auto

lemma htmlSizeRule_top:
  assumes "14000 < htmlSizeKB text"
  shows "htmlSizeRule text =
    [buildDiagnostic startOfDocument
       [tx ''HTML file is '', Num (real_of_int (round (htmlSizeKB text / 1024))),
        Txt (asc ''MB. Approaching Google'' @ [sq] @ asc ''s 15MB WRS limit. Consider pagination or dynamic loading.'')]
       ''WRS_HTML_SIZE_APPROACHING_LIMIT'' Warning,
     buildDiagnostic startOfDocument
       [tx ''HTML file is '', Num (real_of_int (round (htmlSizeKB text / 1024))),
        tx ''MB. Google WRS will truncate at 15MB. URGENT: Reduce file size!'']
       ''WRS_HTML_SIZE_CRITICAL'' Error]"
  using assms by (simp add: htmlSizeRule_def)

lemma htmlSizeRule_bands:
  "length (filter (\<lambda>d. code d \<in> {''PERF_HTML_SIZE_LARGE'', ''PERF_HTML_SIZE_EXCESSIVE'',
      ''WRS_HTML_SIZE_APPROACHING_LIMIT''}) (htmlSizeRule text)) \<le> 1"
  by (simp add: htmlSizeRule_def buildDiagnostic_def)

lemma titleRule_bands:
  "filter (\<lambda>d. code d \<in> {''PERF_HTML_SIZE_LARGE'', ''PERF_HTML_SIZE_EXCESSIVE'',
      ''WRS_HTML_SIZE_APPROACHING_LIMIT''}) (titleRule policy text fileName) = []"
  by (simp add: titleRule_def buildDiagnostic_def Let_def split: option.splits)

lemma ogRule_bands:
  "filter (\<lambda>d. code d \<in> {''PERF_HTML_SIZE_LARGE'', ''PERF_HTML_SIZE_EXCESSIVE'',
      ''WRS_HTML_SIZE_APPROACHING_LIMIT''}) (ogRule text) = []"
  by (simp add: ogRule_def buildDiagnostic_def)

section \<open>The claims\<close>

lemma scanDocument_Diagnostics:
  "scanDocument host policy text fileName = Diagnostics ds \<longleftrightarrow>
     test False supportedRe fileName \<and> fileSizeKB text \<le> 500 \<and>
     scan host policy text fileName = Some ds"
  by (auto simp: scanDocument_def split: option.splits)

lemma scanDocument_scanned:
  assumes "test False supportedRe fileName" "fileSizeKB text \<le> 500"
  shows "\<exists>ds. scanDocument host policy text fileName = Diagnostics ds"
proof -
  from scan_total obtain ds where "scan host policy text fileName = Some ds" by blast
  with assms show ?thesis by (simp add: scanDocument_Diagnostics)
qed

lemma htmlSizeRule_small:
  "htmlSizeKB text \<le> 10000 \<Longrightarrow>
     filter (\<lambda>d. code d \<in> {''WRS_HTML_SIZE_APPROACHING_LIMIT'', ''WRS_HTML_SIZE_CRITICAL''})
       (htmlSizeRule text) = []"
  by (simp add: htmlSizeRule_def buildDiagnostic_def)

lemma titleRule_top:
  "filter (\<lambda>d. code d \<in> {''WRS_HTML_SIZE_APPROACHING_LIMIT'', ''WRS_HTML_SIZE_CRITICAL''})
     (titleRule policy text fileName) = []"
  by (simp add: titleRule_def buildDiagnostic_def Let_def split: option.splits)

lemma ogRule_top:
  "filter (\<lambda>d. code d \<in> {''WRS_HTML_SIZE_APPROACHING_LIMIT'', ''WRS_HTML_SIZE_CRITICAL''})
     (ogRule text) = []"
  by (simp add: ogRule_def buildDiagnostic_def)


text \<open>
  C1. The top payload-size tiers are never reached. \<open>scanDocument\<close> returns at its size
  gate, before any rule runs, for a text of more than 500KB, and the rules compare the
  same number (bytes / 1024). A document above 14000KB (the 14MB of the rule) is skipped
  and gets no finding, although the rules behind the gate, run on it, give both the
  warning \<open>WRS_HTML_SIZE_APPROACHING_LIMIT\<close> and the error \<open>WRS_HTML_SIZE_CRITICAL\<close>. Whatever
  the document, a result of \<open>scanDocument\<close> holds neither of these two codes, and at most
  one of the three band codes.
\<close>

theorem C1_size_gate_hides_top_tiers:
  "(14000 < htmlSizeKB text \<longrightarrow>
      scanDocument host policy text fileName = Skipped \<and>
      (\<exists>ds. scan host policy text fileName = Some ds \<and>
         (\<exists>d \<in> set ds. code d = ''WRS_HTML_SIZE_APPROACHING_LIMIT'' \<and> severity d = Warning) \<and>
         (\<exists>d \<in> set ds. code d = ''WRS_HTML_SIZE_CRITICAL'' \<and> severity d = Error))) \<and>
   (\<forall>ds. scanDocument host policy text fileName = Diagnostics ds \<longrightarrow>
      filter (\<lambda>d. code d \<in> {''WRS_HTML_SIZE_APPROACHING_LIMIT'', ''WRS_HTML_SIZE_CRITICAL''}) ds = [] \<and>
      length (filter (\<lambda>d. code d \<in> {''PERF_HTML_SIZE_LARGE'', ''PERF_HTML_SIZE_EXCESSIVE'',
        ''WRS_HTML_SIZE_APPROACHING_LIMIT''}) ds) \<le> 1)"
proof (intro conjI impI allI)
  assume "14000 < htmlSizeKB text"
  then show "scanDocument host policy text fileName = Skipped"
    by (simp add: scanDocument_def fileSizeKB_def htmlSizeKB_def)
next
  assume big: "14000 < htmlSizeKB text"
  from scan_total obtain ds where ds: "scan host policy text fileName = Some ds" by blast
  from scan_split[OF ds] obtain a b where
    split: "ds = titleRule policy text fileName @ a @ ogRule text @ htmlSizeRule text @ b" by blast
  have "(\<exists>d \<in> set ds. code d = ''WRS_HTML_SIZE_APPROACHING_LIMIT'' \<and> severity d = Warning) \<and>
        (\<exists>d \<in> set ds. code d = ''WRS_HTML_SIZE_CRITICAL'' \<and> severity d = Error)"
    unfolding split htmlSizeRule_top[OF big] by (simp add: buildDiagnostic_def)
  with ds show "\<exists>ds. scan host policy text fileName = Some ds \<and>
         (\<exists>d \<in> set ds. code d = ''WRS_HTML_SIZE_APPROACHING_LIMIT'' \<and> severity d = Warning) \<and>
         (\<exists>d \<in> set ds. code d = ''WRS_HTML_SIZE_CRITICAL'' \<and> severity d = Error)"
    by blast
next
  fix ds
  assume "scanDocument host policy text fileName = Diagnostics ds"
  then have sz: "fileSizeKB text \<le> 500" and ds: "scan host policy text fileName = Some ds"
    by (simp_all add: scanDocument_Diagnostics)
  from sz have small: "htmlSizeKB text \<le> 10000" by (simp add: fileSizeKB_def htmlSizeKB_def)
  from scan_split[OF ds] obtain a b where
    split: "ds = titleRule policy text fileName @ a @ ogRule text @ htmlSizeRule text @ b"
    and o: "others a" "others b" by blast
  let ?P = "\<lambda>k. k \<in> {''WRS_HTML_SIZE_APPROACHING_LIMIT'', ''WRS_HTML_SIZE_CRITICAL''}"
  have own: "\<And>k. ?P k \<Longrightarrow> k \<in> ownedCodes" by (auto simp: ownedCodes_def)
  have fa: "filter (\<lambda>d. ?P (code d)) a = []" by (rule others_filter[OF o(1)]) (rule own)
  have fb: "filter (\<lambda>d. ?P (code d)) b = []" by (rule others_filter[OF o(2)]) (rule own)
  show "filter (\<lambda>d. ?P (code d)) ds = []"
    unfolding split filter_append fa fb titleRule_top ogRule_top htmlSizeRule_small[OF small] by simp
next
  fix ds
  assume "scanDocument host policy text fileName = Diagnostics ds"
  then have ds: "scan host policy text fileName = Some ds"
    by (simp add: scanDocument_Diagnostics)
  from scan_split[OF ds] obtain a b where
    split: "ds = titleRule policy text fileName @ a @ ogRule text @ htmlSizeRule text @ b"
    and o: "others a" "others b" by blast
  let ?P = "\<lambda>k. k \<in> {''PERF_HTML_SIZE_LARGE'', ''PERF_HTML_SIZE_EXCESSIVE'',
       ''WRS_HTML_SIZE_APPROACHING_LIMIT''}"
  have own: "\<And>k. ?P k \<Longrightarrow> k \<in> ownedCodes" by (auto simp: ownedCodes_def)
  have fa: "filter (\<lambda>d. ?P (code d)) a = []" by (rule others_filter[OF o(1)]) (rule own)
  have fb: "filter (\<lambda>d. ?P (code d)) b = []" by (rule others_filter[OF o(2)]) (rule own)
  have "filter (\<lambda>d. ?P (code d)) ds = filter (\<lambda>d. ?P (code d)) (htmlSizeRule text)"
    unfolding split filter_append fa fb titleRule_bands ogRule_bands by simp
  with htmlSizeRule_bands[of "text"] show "length (filter (\<lambda>d. ?P (code d)) ds) \<le> 1" by simp
qed

theorem C1_size_gate_hides_top_tiers_witness:
  "\<forall>host policy.
     scanDocument host policy (replicate 14848000 (ch CHR ''a'')) (asc ''index.html'') = Skipped \<and>
     (\<exists>ds. scan host policy (replicate 14848000 (ch CHR ''a'')) (asc ''index.html'') = Some ds \<and>
         (\<exists>d \<in> set ds. code d = ''WRS_HTML_SIZE_APPROACHING_LIMIT'' \<and> severity d = Warning) \<and>
         (\<exists>d \<in> set ds. code d = ''WRS_HTML_SIZE_CRITICAL'' \<and> severity d = Error)) \<and>
     (\<exists>ds. scanDocument host policy (replicate 512000 (ch CHR ''a'')) (asc ''index.html'') = Diagnostics ds \<and>
         filter (\<lambda>d. code d \<in> {''WRS_HTML_SIZE_APPROACHING_LIMIT'', ''WRS_HTML_SIZE_CRITICAL''}) ds = [])"
proof (intro allI)
  fix host policy
  let ?big = "replicate 14848000 (ch CHR ''a'')"
  let ?small = "replicate 512000 (ch CHR ''a'')"
  have "byteLength ?big = 14848000"
    by (subst byteLength_ascii) (simp_all add: ch_def)
  then have h: "14000 < htmlSizeKB ?big" by (simp add: htmlSizeKB_def)
  have "byteLength ?small = 512000"
    by (subst byteLength_ascii) (simp_all add: ch_def)
  then have s: "fileSizeKB ?small \<le> 500" by (simp add: fileSizeKB_def)
  have n: "test False supportedRe (asc ''index.html'')" by code_simp
  from scanDocument_scanned[OF n s] obtain ds where
    ds: "scanDocument host policy ?small (asc ''index.html'') = Diagnostics ds" by blast
  from C1_size_gate_hides_top_tiers[of ?big host policy "asc ''index.html''"] h
  have 1: "scanDocument host policy ?big (asc ''index.html'') = Skipped \<and>
     (\<exists>ds. scan host policy ?big (asc ''index.html'') = Some ds \<and>
         (\<exists>d \<in> set ds. code d = ''WRS_HTML_SIZE_APPROACHING_LIMIT'' \<and> severity d = Warning) \<and>
         (\<exists>d \<in> set ds. code d = ''WRS_HTML_SIZE_CRITICAL'' \<and> severity d = Error))"
    by blast
  from C1_size_gate_hides_top_tiers[of ?small host policy "asc ''index.html''"] ds
  have 2: "filter (\<lambda>d. code d \<in> {''WRS_HTML_SIZE_APPROACHING_LIMIT'', ''WRS_HTML_SIZE_CRITICAL''}) ds = []"
    by blast
  from 1 2 ds show "scanDocument host policy ?big (asc ''index.html'') = Skipped \<and>
     (\<exists>ds. scan host policy ?big (asc ''index.html'') = Some ds \<and>
         (\<exists>d \<in> set ds. code d = ''WRS_HTML_SIZE_APPROACHING_LIMIT'' \<and> severity d = Warning) \<and>
         (\<exists>d \<in> set ds. code d = ''WRS_HTML_SIZE_CRITICAL'' \<and> severity d = Error)) \<and>
     (\<exists>ds. scanDocument host policy ?small (asc ''index.html'') = Diagnostics ds \<and>
         filter (\<lambda>d. code d \<in> {''WRS_HTML_SIZE_APPROACHING_LIMIT'', ''WRS_HTML_SIZE_CRITICAL''}) ds = [])"
    by blast
qed

text \<open>
  C10. The policy fields \<open>lcpImageKB\<close> and \<open>requireFontDisplaySwap\<close> have no effect on the
  output. Two policies with the same \<open>seo\<close> section and the same
  \<open>perf?.maxThirdPartyScriptsPerPage\<close> (so that they differ at most in the two fields)
  give the same result on every document, for the scan and for \<open>scanDocument\<close>; the font
  rules do not read the policy at all.
\<close>

theorem C10_unused_policy_fields:
  assumes "seo p1 = seo p2"
      and "Option.bind (perf p1) maxThirdPartyScriptsPerPage =
           Option.bind (perf p2) maxThirdPartyScriptsPerPage"
  shows "scan host p1 text fileName = scan host p2 text fileName \<and>
         scanDocument host p1 text fileName = scanDocument host p2 text fileName"
proof -
  from assms(2) have m: "theMaxTP host p1 = theMaxTP host p2"
    by (cases "perf p1"; cases "perf p2") (auto simp: theMaxTP_def orDefault_def split: option.splits)
  from assms(1) have e: "theTitleMin p1 = theTitleMin p2" "theTitleMax p1 = theTitleMax p2"
    "theDescMin p1 = theDescMin p2" "theDescMax p1 = theDescMax p2"
    "theRequireCanonical host p1 = theRequireCanonical host p2"
    "theRequireJsonLdFor p1 = theRequireJsonLdFor p2"
    by (simp_all add: theTitleMin_def theTitleMax_def theDescMin_def theDescMax_def
        theRequireCanonical_def theRequireJsonLdFor_def)
  have t: "titleRule p1 text fileName = titleRule p2 text fileName"
    unfolding titleRule_def e ..
  have d: "metaDescRule p1 text = metaDescRule p2 text"
    unfolding metaDescRule_def e ..
  have c: "canonicalRule host p1 text = canonicalRule host p2 text"
    unfolding canonicalRule_def e ..
  have j: "jsonLdRule p1 text fileName = jsonLdRule p2 text fileName"
    unfolding jsonLdRule_def e ..
  have s: "\<And>n. scriptCountRule host p1 n = scriptCountRule host p2 n"
    unfolding scriptCountRule_def m ..
  have 1: "scan host p1 text fileName = scan host p2 text fileName"
    unfolding scan_def t d c j s ..
  then show ?thesis by (simp add: scanDocument_def)
qed

theorem C10_unused_policy_fields_witness:
  "\<forall>host text fileName.
     scan host \<lparr>seo = None, perf = Some \<lparr>maxThirdPartyScriptsPerPage = Some 6, lcpImageKB = Some 350,
                   requireFontDisplaySwap = Some True\<rparr>\<rparr> text fileName =
     scan host \<lparr>seo = None, perf = Some \<lparr>maxThirdPartyScriptsPerPage = Some 6, lcpImageKB = None,
                   requireFontDisplaySwap = Some False\<rparr>\<rparr> text fileName"
  using C10_unused_policy_fields
    [of "\<lparr>seo = None, perf = Some \<lparr>maxThirdPartyScriptsPerPage = Some 6, lcpImageKB = Some 350,
                   requireFontDisplaySwap = Some True\<rparr>\<rparr>"
        "\<lparr>seo = None, perf = Some \<lparr>maxThirdPartyScriptsPerPage = Some 6, lcpImageKB = None,
                   requireFontDisplaySwap = Some False\<rparr>\<rparr>"]
  by simp

lemma titleRule_missing:
  "(\<exists>d \<in> set (titleRule policy text fileName). code d = ''SEO_TITLE_MISSING'') \<longleftrightarrow>
     exec True titleRe text = None \<and> test True headRe text \<and> \<not> isNextJs text \<and> \<not> isJsxFile fileName"
  by (simp add: titleRule_def buildDiagnostic_def Let_def split: option.splits)

lemma ogRule_not_title: "d \<in> set (ogRule text) \<Longrightarrow> code d \<noteq> ''SEO_TITLE_MISSING'' \<and> code d \<noteq> ''SEO_TITLE_LENGTH''"
  by (auto simp: ogRule_def buildDiagnostic_def split: if_splits)

lemma htmlSizeRule_not_title: "d \<in> set (htmlSizeRule text) \<Longrightarrow> code d \<noteq> ''SEO_TITLE_MISSING'' \<and> code d \<noteq> ''SEO_TITLE_LENGTH'' \<and> code d \<noteq> ''SEO_OG_TAGS_MISSING''"
  by (auto simp: htmlSizeRule_def buildDiagnostic_def split: if_splits)

lemma titleRule_not_og: "d \<in> set (titleRule policy text fileName) \<Longrightarrow> code d \<noteq> ''SEO_OG_TAGS_MISSING''"
  by (auto simp: titleRule_def buildDiagnostic_def Let_def split: if_splits option.splits)

text \<open>
  C8. Missing-title suppression. The scan returns, and \<open>SEO_TITLE_MISSING\<close> is in its
  output exactly when the title pattern has no match, the document has \<open><head>\<close>, none of
  the Next.js markers (\<open>next/head\<close>, \<open>from "next"\<close>, \<open>from 'next'\<close>) occurs in it and the
  file name does not end in \<open>.jsx\<close> or \<open>.tsx\<close>. In particular a document that contains
  \<open>next/head\<close> never gets the finding.
\<close>

theorem C8_missing_title_suppression:
  "\<exists>ds. scan host policy text fileName = Some ds \<and>
     ((\<exists>d \<in> set ds. code d = ''SEO_TITLE_MISSING'') \<longleftrightarrow>
        exec True titleRe text = None \<and> test True headRe text \<and> \<not> isNextJs text \<and>
        \<not> isJsxFile fileName) \<and>
     (includesStr text (asc ''next/head'') \<longrightarrow> (\<forall>d \<in> set ds. code d \<noteq> ''SEO_TITLE_MISSING''))"
proof -
  from scan_total obtain ds where ds: "scan host policy text fileName = Some ds" by blast
  from scan_split[OF ds] obtain a b where
    split: "ds = titleRule policy text fileName @ a @ ogRule text @ htmlSizeRule text @ b"
    and o: "others a" "others b" by blast
  have k: "''SEO_TITLE_MISSING'' \<in> ownedCodes" by (simp add: ownedCodes_def)
  have "(\<exists>d \<in> set ds. code d = ''SEO_TITLE_MISSING'') \<longleftrightarrow>
        (\<exists>d \<in> set (titleRule policy text fileName). code d = ''SEO_TITLE_MISSING'')"
    unfolding split using others_code[OF o(1) _ k] others_code[OF o(2) _ k]
      ogRule_not_title[of _ "text"] htmlSizeRule_not_title[of _ "text"] by auto
  then have 1: "(\<exists>d \<in> set ds. code d = ''SEO_TITLE_MISSING'') \<longleftrightarrow>
        exec True titleRe text = None \<and> test True headRe text \<and> \<not> isNextJs text \<and>
        \<not> isJsxFile fileName"
    unfolding titleRule_missing .
  then have 2: "includesStr text (asc ''next/head'') \<longrightarrow> (\<forall>d \<in> set ds. code d \<noteq> ''SEO_TITLE_MISSING'')"
    by (auto simp: isNextJs_def)
  from ds 1 2 show ?thesis by blast
qed

theorem C8_missing_title_suppression_witness:
  "\<forall>host policy fileName. \<exists>ds.
     scan host policy (asc ''import Head from next/head; <head></head>'') fileName = Some ds \<and>
     (\<forall>d \<in> set ds. code d \<noteq> ''SEO_TITLE_MISSING'')"
proof (intro allI)
  fix host policy fileName
  have h: "includesStr (asc ''import Head from next/head; <head></head>'') (asc ''next/head'')"
    by code_simp
  from C8_missing_title_suppression[of host policy "asc ''import Head from next/head; <head></head>''" fileName] h
  show "\<exists>ds. scan host policy (asc ''import Head from next/head; <head></head>'') fileName = Some ds \<and>
     (\<forall>d \<in> set ds. code d \<noteq> ''SEO_TITLE_MISSING'')"
    by (elim exE conjE) (intro exI conjI, assumption, simp)
qed

lemma missingOg_filter:
  "missingOg text = filter (\<lambda>t. \<not> test True (ogRe t) text)
      [''og:title'', ''og:description'', ''og:image'', ''og:url'']"
  by (simp add: missingOg_def ogTags_def)

lemma scan_og:
  assumes "scan host policy text fileName = Some ds"
  shows "filter (\<lambda>d. code d = ''SEO_OG_TAGS_MISSING'') ds =
         filter (\<lambda>d. code d = ''SEO_OG_TAGS_MISSING'') (ogRule text)"
proof -
  from scan_split[OF assms] obtain a b where
    split: "ds = titleRule policy text fileName @ a @ ogRule text @ htmlSizeRule text @ b"
    and o: "others a" "others b" by blast
  have own: "\<And>k. k = ''SEO_OG_TAGS_MISSING'' \<Longrightarrow> k \<in> ownedCodes" by (simp add: ownedCodes_def)
  have fa: "filter (\<lambda>d. code d = ''SEO_OG_TAGS_MISSING'') a = []"
    by (rule others_filter[OF o(1)]) (rule own)
  have fb: "filter (\<lambda>d. code d = ''SEO_OG_TAGS_MISSING'') b = []"
    by (rule others_filter[OF o(2)]) (rule own)
  have ft: "filter (\<lambda>d. code d = ''SEO_OG_TAGS_MISSING'') (titleRule policy text fileName) = []"
    using titleRule_not_og by (auto simp: filter_empty_conv)
  have fh: "filter (\<lambda>d. code d = ''SEO_OG_TAGS_MISSING'') (htmlSizeRule text) = []"
    using htmlSizeRule_not_title by (auto simp: filter_empty_conv)
  show ?thesis
    unfolding split filter_append fa fb ft fh by simp
qed


text \<open>
  C7. The Open Graph rule. \<open>missingOg\<close> is the list of the four tags whose pattern has no
  match. In a result of \<open>scanDocument\<close> the finding \<open>SEO_OG_TAGS_MISSING\<close> is present exactly
  when at least three of the four tags are missing and the pattern \<^verbatim>\<open>/<head>/i\<close> matches, at
  most once, with severity \<open>Information\<close> and a message that lists the number and the names
  of the missing tags. The pattern is the literal tag: a head tag with attributes, which
  the pattern of the head-order rule takes for a head section, is none for this rule, and a
  document with one gets no finding even when all four tags are missing.
\<close>

theorem C7_head_test_is_literal:
  assumes "scanDocument host policy text fileName = Diagnostics ds"
  shows "missingOg text = filter (\<lambda>t. \<not> test True (ogRe t) text)
           [''og:title'', ''og:description'', ''og:image'', ''og:url''] \<and>
     ((\<exists>d \<in> set ds. code d = ''SEO_OG_TAGS_MISSING'') \<longleftrightarrow>
        3 \<le> length (missingOg text) \<and> test True headRe text) \<and>
     length (filter (\<lambda>d. code d = ''SEO_OG_TAGS_MISSING'') ds) \<le> 1 \<and>
     (\<forall>d \<in> set ds. code d = ''SEO_OG_TAGS_MISSING'' \<longrightarrow>
        severity d = Information \<and>
        message d = [tx ''Missing '', Num (real (length (missingOg text))),
                     tx ''/4 Open Graph tags: '',
                     Txt (joinWith (asc '', '') (map asc (missingOg text))),
                     tx ''. These improve social media sharing.''])"
proof -
  from assms have ds: "scan host policy text fileName = Some ds"
    by (simp add: scanDocument_Diagnostics)
  note f = scan_og[OF ds]
  have 1: "(\<exists>d \<in> set ds. code d = ''SEO_OG_TAGS_MISSING'') \<longleftrightarrow>
        3 \<le> length (missingOg text) \<and> test True headRe text"
  proof -
    have "(\<exists>d \<in> set ds. code d = ''SEO_OG_TAGS_MISSING'') \<longleftrightarrow>
          filter (\<lambda>d. code d = ''SEO_OG_TAGS_MISSING'') ds \<noteq> []"
      by (simp add: filter_empty_conv)
    also have "\<dots> \<longleftrightarrow> 3 \<le> length (missingOg text) \<and> test True headRe text"
      unfolding f by (simp add: ogRule_def buildDiagnostic_def)
    finally show ?thesis .
  qed
  have 2: "length (filter (\<lambda>d. code d = ''SEO_OG_TAGS_MISSING'') ds) \<le> 1"
    unfolding f by (simp add: ogRule_def)
  have "\<forall>d \<in> set (filter (\<lambda>d. code d = ''SEO_OG_TAGS_MISSING'') ds).
        severity d = Information \<and>
        message d = [tx ''Missing '', Num (real (length (missingOg text))),
                     tx ''/4 Open Graph tags: '',
                     Txt (joinWith (asc '', '') (map asc (missingOg text))),
                     tx ''. These improve social media sharing.'']"
    unfolding f by (simp add: ogRule_def buildDiagnostic_def)
  then have 3: "\<forall>d \<in> set ds. code d = ''SEO_OG_TAGS_MISSING'' \<longrightarrow>
        severity d = Information \<and>
        message d = [tx ''Missing '', Num (real (length (missingOg text))),
                     tx ''/4 Open Graph tags: '',
                     Txt (joinWith (asc '', '') (map asc (missingOg text))),
                     tx ''. These improve social media sharing.'']"
    by simp
  show ?thesis
    by (intro conjI missingOg_filter 1 2 3)
qed


theorem C7_head_test_is_literal_witness:
  "\<forall>host policy.
     (test True headSectionRe (asc ''<head lang=en><title>Shop</title></head>'') \<and>
      missingOg (asc ''<head lang=en><title>Shop</title></head>'') =
        [''og:title'', ''og:description'', ''og:image'', ''og:url''] \<and>
      (\<exists>ds. scanDocument host policy (asc ''<head lang=en><title>Shop</title></head>'')
               (asc ''index.html'') = Diagnostics ds \<and>
            filter (\<lambda>d. code d = ''SEO_OG_TAGS_MISSING'') ds = [])) \<and>
     (missingOg (asc ''<head><meta property='' @ [dq] @ asc ''og:title'' @ [dq] @ asc '' content='' @ [dq] @
                 asc ''Shop'' @ [dq] @ asc ''><meta property='' @ [sq] @ asc ''og:url'' @ [sq] @
                 asc '' content='' @ [sq] @ asc ''/'' @ [sq] @ asc ''></head>'') =
        [''og:description'', ''og:image''] \<and>
      (\<exists>ds. scanDocument host policy
               (asc ''<head><meta property='' @ [dq] @ asc ''og:title'' @ [dq] @ asc '' content='' @ [dq] @
                 asc ''Shop'' @ [dq] @ asc ''><meta property='' @ [sq] @ asc ''og:url'' @ [sq] @
                 asc '' content='' @ [sq] @ asc ''/'' @ [sq] @ asc ''></head>'')
               (asc ''index.html'') = Diagnostics ds \<and>
            filter (\<lambda>d. code d = ''SEO_OG_TAGS_MISSING'') ds = [])) \<and>
     (\<exists>ds. scanDocument host policy
               (asc ''<head><meta property='' @ [dq] @ asc ''og:title'' @ [dq] @ asc '' content='' @ [dq] @
                 asc ''Shop'' @ [dq] @ asc ''></head>'')
               (asc ''index.html'') = Diagnostics ds \<and>
            (\<exists>d \<in> set ds. code d = ''SEO_OG_TAGS_MISSING'' \<and> severity d = Information \<and>
               message d = [tx ''Missing '', Num 3, tx ''/4 Open Graph tags: '',
                            Txt (asc ''og:description, og:image, og:url''),
                            tx ''. These improve social media sharing.'']))"
proof (intro allI)
  fix host policy
  let ?T1 = "asc ''<head lang=en><title>Shop</title></head>''"
  let ?T2 = "asc ''<head><meta property='' @ [dq] @ asc ''og:title'' @ [dq] @ asc '' content='' @ [dq] @
                 asc ''Shop'' @ [dq] @ asc ''><meta property='' @ [sq] @ asc ''og:url'' @ [sq] @
                 asc '' content='' @ [sq] @ asc ''/'' @ [sq] @ asc ''></head>''"
  let ?T3 = "asc ''<head><meta property='' @ [dq] @ asc ''og:title'' @ [dq] @ asc '' content='' @ [dq] @
                 asc ''Shop'' @ [dq] @ asc ''></head>''"
  let ?n = "asc ''index.html''"
  let ?og = "\<lambda>d. code d = ''SEO_OG_TAGS_MISSING''"
  have n: "test False supportedRe ?n" by code_simp
  have "byteLength ?T1 \<le> 1000" by code_simp
  then have s1: "fileSizeKB ?T1 \<le> 500" by (simp add: fileSizeKB_def)
  have "byteLength ?T2 \<le> 1000" by code_simp
  then have s2: "fileSizeKB ?T2 \<le> 500" by (simp add: fileSizeKB_def)
  have "byteLength ?T3 \<le> 1000" by code_simp
  then have s3: "fileSizeKB ?T3 \<le> 500" by (simp add: fileSizeKB_def)
  have h1: "test True headSectionRe ?T1" by code_simp
  have l1: "\<not> test True headRe ?T1" by code_simp
  have m1: "missingOg ?T1 = [''og:title'', ''og:description'', ''og:image'', ''og:url'']" by code_simp
  have m2: "missingOg ?T2 = [''og:description'', ''og:image'']" by code_simp
  have l3: "test True headRe ?T3" by code_simp
  have m3: "missingOg ?T3 = [''og:description'', ''og:image'', ''og:url'']" by code_simp
  have j3: "joinWith (asc '', '') (map asc [''og:description'', ''og:image'', ''og:url'']) =
      asc ''og:description, og:image, og:url''" by code_simp
  from scanDocument_scanned[OF n s1] obtain ds1 where
    ds1: "scanDocument host policy ?T1 ?n = Diagnostics ds1" by blast
  from scanDocument_scanned[OF n s2] obtain ds2 where
    ds2: "scanDocument host policy ?T2 ?n = Diagnostics ds2" by blast
  from scanDocument_scanned[OF n s3] obtain ds3 where
    ds3: "scanDocument host policy ?T3 ?n = Diagnostics ds3" by blast
  from C7_head_test_is_literal[OF ds1] l1 have "\<not> (\<exists>d \<in> set ds1. ?og d)" by blast
  then have e1: "filter ?og ds1 = []" by (simp add: filter_empty_conv)
  from C7_head_test_is_literal[OF ds2] have "\<not> (\<exists>d \<in> set ds2. ?og d)"
    unfolding m2 by simp
  then have e2: "filter ?og ds2 = []" by (simp add: filter_empty_conv)
  from C7_head_test_is_literal[OF ds3] l3
  have i3: "\<exists>d \<in> set ds3. ?og d"
    and a3: "\<forall>d \<in> set ds3. ?og d \<longrightarrow> severity d = Information \<and>
        message d = [tx ''Missing '', Num (real (length (missingOg ?T3))),
                     tx ''/4 Open Graph tags: '',
                     Txt (joinWith (asc '', '') (map asc (missingOg ?T3))),
                     tx ''. These improve social media sharing.'']"
    unfolding m3 by simp_all
  from i3 obtain d where d: "d \<in> set ds3" "?og d" by blast
  with a3 have "severity d = Information \<and>
        message d = [tx ''Missing '', Num 3, tx ''/4 Open Graph tags: '',
                     Txt (asc ''og:description, og:image, og:url''),
                     tx ''. These improve social media sharing.'']"
    unfolding m3 j3 by simp
  with d have e3: "\<exists>d \<in> set ds3. ?og d \<and> severity d = Information \<and>
        message d = [tx ''Missing '', Num 3, tx ''/4 Open Graph tags: '',
                     Txt (asc ''og:description, og:image, og:url''),
                     tx ''. These improve social media sharing.'']" by blast
  show "(test True headSectionRe ?T1 \<and> missingOg ?T1 = [''og:title'', ''og:description'', ''og:image'', ''og:url''] \<and>
      (\<exists>ds. scanDocument host policy ?T1 ?n = Diagnostics ds \<and> filter ?og ds = [])) \<and>
     (missingOg ?T2 = [''og:description'', ''og:image''] \<and>
      (\<exists>ds. scanDocument host policy ?T2 ?n = Diagnostics ds \<and> filter ?og ds = [])) \<and>
     (\<exists>ds. scanDocument host policy ?T3 ?n = Diagnostics ds \<and>
            (\<exists>d \<in> set ds. ?og d \<and> severity d = Information \<and>
               message d = [tx ''Missing '', Num 3, tx ''/4 Open Graph tags: '',
                            Txt (asc ''og:description, og:image, og:url''),
                            tx ''. These improve social media sharing.'']))"
  proof (intro conjI)
    show "test True headSectionRe ?T1" by (rule h1)
    show "missingOg ?T1 = [''og:title'', ''og:description'', ''og:image'', ''og:url'']" by (rule m1)
    show "\<exists>ds. scanDocument host policy ?T1 ?n = Diagnostics ds \<and> filter ?og ds = []"
      by (intro exI[of _ ds1] conjI) (rule ds1, rule e1)
    show "missingOg ?T2 = [''og:description'', ''og:image'']" by (rule m2)
    show "\<exists>ds. scanDocument host policy ?T2 ?n = Diagnostics ds \<and> filter ?og ds = []"
      by (intro exI[of _ ds2] conjI) (rule ds2, rule e2)
    show "\<exists>ds. scanDocument host policy ?T3 ?n = Diagnostics ds \<and>
            (\<exists>d \<in> set ds. ?og d \<and> severity d = Information \<and>
               message d = [tx ''Missing '', Num 3, tx ''/4 Open Graph tags: '',
                            Txt (asc ''og:description, og:image, og:url''),
                            tx ''. These improve social media sharing.''])"
      by (intro exI[of _ ds3] conjI) (rule ds3, rule e3)
  qed
qed






lemma splitOn_append:
  "d \<notin> set s \<Longrightarrow> splitOn d (s @ d # rest) = s # splitOn d rest"
  by (induction s) auto

lemma splitOn_none: "d \<notin> set s \<Longrightarrow> splitOn d s = [s]"
  by (induction s) auto

lemma splitOn_joinWith:
  "segs \<noteq> [] \<Longrightarrow> \<forall>s \<in> set segs. d \<notin> set s \<Longrightarrow> splitOn d (joinWith [d] segs) = segs"
proof (induction "[d]" segs rule: joinWith.induct)
  case 1
  then show ?case by simp
next
  case (2 x)
  then show ?case by (simp add: splitOn_none)
next
  case (3 x y ys)
  then show ?case by (simp add: splitOn_append)
qed

lemma packageNameOf_segments:
  assumes "segs \<noteq> []" "\<forall>s \<in> set segs. ch CHR ''/'' \<notin> set s"
  shows "packageNameOf (joinWith (asc ''/'') segs) =
     (if startsWith (joinWith (asc ''/'') segs) (asc ''@'') then joinWith (asc ''/'') (take 2 segs)
      else hd segs)"
proof -
  have a: "asc ''/'' = [ch CHR ''/'']" by (simp add: asc_def)
  from splitOn_joinWith[OF assms] have s: "splitOn (ch CHR ''/'') (joinWith (asc ''/'') segs) = segs"
    unfolding a .
  from assms(1) show ?thesis
    unfolding packageNameOf_def s by (cases segs) simp_all
qed

definition bundleCodes :: "string set" where
  "bundleCodes = {''WRS_JS_BUNDLE_SIZE_WARNING'', ''WRS_JS_BUNDLE_SIZE_EXCEEDED''}"

definition unbundled :: "diagnostic list \<Rightarrow> bool" where
  "unbundled ds \<longleftrightarrow> (\<forall>d \<in> set ds. code d \<notin> bundleCodes)"

lemma unbundled_Nil [simp]: "unbundled []"
  by (simp add: unbundled_def)

lemma unbundled_append [simp]: "unbundled (xs @ ys) \<longleftrightarrow> unbundled xs \<and> unbundled ys"
  by (auto simp: unbundled_def)

lemma unbundled_single [simp]: "unbundled [buildDiagnostic r m k s] \<longleftrightarrow> k \<notin> bundleCodes"
  by (simp add: unbundled_def buildDiagnostic_def)

lemma unbundled_concat_map: "(\<And>m. unbundled (f m)) \<Longrightarrow> unbundled (concat (map f ms))"
  by (induction ms) auto

lemma unbundled_filter:
  "unbundled xs \<Longrightarrow> (\<And>k. P k \<Longrightarrow> k \<in> bundleCodes) \<Longrightarrow> filter (\<lambda>d. P (code d)) xs = []"
  by (induction xs) (auto simp: unbundled_def)

lemma metaDescRule_unbundled: "unbundled (metaDescRule policy text)"
  by (simp add: metaDescRule_def Let_def bundleCodes_def split: option.splits)

lemma canonicalRule_unbundled: "unbundled (canonicalRule host policy text)"
  by (simp add: canonicalRule_def bundleCodes_def split: option.splits)

lemma jsonLdRule_unbundled: "unbundled (jsonLdRule policy text fileName)"
  by (simp add: jsonLdRule_def Let_def bundleCodes_def)

lemma domSizeRule_unbundled: "unbundled (domSizeRule text)"
  by (simp add: domSizeRule_def bundleCodes_def)

lemma domDepthRule_unbundled: "unbundled (domDepthRule n)"
  by (simp add: domDepthRule_def bundleCodes_def)

lemma headOrderRule_unbundled: "unbundled (headOrderRule text)"
  by (simp add: headOrderRule_def Let_def bundleCodes_def split: option.splits)

lemma imgDiagnostics_unbundled: "unbundled (imgDiagnostics m)"
  by (simp add: imgDiagnostics_def Let_def bundleCodes_def)

lemma imgRule_unbundled: "imgRule text = Some ds \<Longrightarrow> unbundled ds"
  using unbundled_concat_map[of imgDiagnostics, OF imgDiagnostics_unbundled] by (auto simp: imgRule_def)

lemma nextImgDiagnostics_unbundled: "unbundled (nextImgDiagnostics m)"
  by (simp add: nextImgDiagnostics_def Let_def bundleCodes_def)

lemma nextImgRule_unbundled: "nextImgRule text = Some ds \<Longrightarrow> unbundled ds"
  using unbundled_concat_map[of nextImgDiagnostics, OF nextImgDiagnostics_unbundled]
  by (auto simp: nextImgRule_def)

lemma fontFaceDiagnostics_unbundled: "unbundled (fontFaceDiagnostics m)"
  by (simp add: fontFaceDiagnostics_def Let_def bundleCodes_def)

lemma fontFaceRule_unbundled: "fontFaceRule text = Some ds \<Longrightarrow> unbundled ds"
  using unbundled_concat_map[of fontFaceDiagnostics, OF fontFaceDiagnostics_unbundled]
  by (auto simp: fontFaceRule_def)

lemma fontPreloadRule_unbundled: "unbundled (fontPreloadRule text)"
  by (simp add: fontPreloadRule_def bundleCodes_def)

lemma importStep_unbundled: "unbundled (snd st) \<Longrightarrow> unbundled (snd (importStep st m))"
  by (simp add: importStep_def Let_def bundleCodes_def split: option.splits libEntry.splits)

lemma importFold_unbundled: "unbundled (snd st) \<Longrightarrow> unbundled (snd (foldl importStep st ms))"
  by (induction ms arbitrary: st) (simp_all add: importStep_unbundled)

lemma scriptStep_unbundled: "unbundled (scriptDiags st) \<Longrightarrow> unbundled (scriptDiags (scriptStep host st m))"
  by (simp add: scriptStep_def Let_def bundleCodes_def)

lemma scriptFold_unbundled: "unbundled (scriptDiags st) \<Longrightarrow> unbundled (scriptDiags (foldl (scriptStep host) st ms))"
  by (induction ms arbitrary: st) (simp_all add: scriptStep_unbundled)

lemma scriptLoop_unbundled: "scriptLoop host text = Some st \<Longrightarrow> unbundled (scriptDiags st)"
proof -
  assume "scriptLoop host text = Some st"
  then obtain ms where
    "st = foldl (scriptStep host) \<lparr>scriptCount = 0, externalDomains = [], scriptDiags = []\<rparr> ms"
    by (auto simp: scriptLoop_def)
  then show ?thesis
    using scriptFold_unbundled[of "\<lparr>scriptCount = 0, externalDomains = [], scriptDiags = []\<rparr>" host ms]
    by simp
qed

lemma scriptCountRule_unbundled: "unbundled (scriptCountRule host policy n)"
  by (simp add: scriptCountRule_def bundleCodes_def)

lemma preconnectRule_unbundled: "unbundled (preconnectRule text ds)"
  by (simp add: preconnectRule_def Let_def bundleCodes_def)

lemma titleRule_unbundled: "unbundled (titleRule policy text fileName)"
  by (simp add: titleRule_def Let_def bundleCodes_def split: option.splits)

lemma ogRule_unbundled: "unbundled (ogRule text)"
  by (simp add: ogRule_def bundleCodes_def)

lemma htmlSizeRule_unbundled: "unbundled (htmlSizeRule text)"
  by (simp add: htmlSizeRule_def bundleCodes_def)


text \<open>
  The packages the import loop sees, in the order of their statements, and the size the
  table gives a package (0 for a package that is not in the table).
\<close>

definition importedPackages :: "jsstring \<Rightarrow> jsstring list option" where
  "importedPackages text =
     map_option (map (\<lambda>importMatch. packageNameOf (importPathOf importMatch)))
       (execLoop False importRegex None text 0)"

definition tableSize :: "jsstring \<Rightarrow> nat" where
  "tableSize packageName = (case map_of heavyLibraries packageName of Some (sz, _) \<Rightarrow> sz | None \<Rightarrow> 0)"

lemma importStep_fst:
  "fst (importStep st m) =
     (case lookupLibrary (packageNameOf (importPathOf m)) of
        None \<Rightarrow> fst st
      | Some (Own sz alternative) \<Rightarrow> map_option (\<lambda>t. t + sz) (fst st)
      | Some Inherited \<Rightarrow> None)"
  by (simp add: importStep_def Let_def split: option.splits libEntry.splits)

lemma lookupLibrary_tableSize:
  "lookupLibrary n = None \<Longrightarrow> tableSize n = 0"
  "lookupLibrary n = Some (Own sz alternative) \<Longrightarrow> tableSize n = sz"
  by (auto simp: lookupLibrary_def tableSize_def split: option.splits if_splits)

lemma importFold_None: "fst (foldl importStep st ms) = None" if "fst st = None"
  using that
proof (induction ms arbitrary: st)
  case Nil
  then show ?case by simp
next
  case (Cons m ms)
  from Cons.prems have "fst (importStep st m) = None"
    by (simp add: importStep_fst split: option.splits libEntry.splits)
  from Cons.IH[OF this] show ?case by simp
qed

lemma importFold_inherited:
  assumes "\<exists>m \<in> set ms. lookupLibrary (packageNameOf (importPathOf m)) = Some Inherited"
  shows "fst (foldl importStep st ms) = None"
  using assms
proof (induction ms arbitrary: st)
  case Nil
  then show ?case by simp
next
  case (Cons m ms)
  show ?case
  proof (cases "lookupLibrary (packageNameOf (importPathOf m)) = Some Inherited")
    case True
    then have "fst (importStep st m) = None" by (simp add: importStep_fst)
    from importFold_None[OF this] show ?thesis by simp
  next
    case False
    with Cons.prems have "\<exists>m \<in> set ms. lookupLibrary (packageNameOf (importPathOf m)) = Some Inherited"
      by simp
    from Cons.IH[OF this] show ?thesis by simp
  qed
qed

lemma importFold_total:
  assumes "\<forall>m \<in> set ms. lookupLibrary (packageNameOf (importPathOf m)) \<noteq> Some Inherited"
    and "fst st = Some t"
  shows "fst (foldl importStep st ms) =
         Some (t + sum_list (map (\<lambda>m. tableSize (packageNameOf (importPathOf m))) ms))"
  using assms
proof (induction ms arbitrary: st t)
  case Nil
  then show ?case by simp
next
  case (Cons m ms)
  let ?n = "packageNameOf (importPathOf m)"
  from Cons.prems(1) have ni: "lookupLibrary ?n \<noteq> Some Inherited"
    and rest: "\<forall>m \<in> set ms. lookupLibrary (packageNameOf (importPathOf m)) \<noteq> Some Inherited"
    by simp_all
  have "fst (importStep st m) = Some (t + tableSize ?n)"
  proof (cases "lookupLibrary ?n")
    case None
    with Cons.prems(2) lookupLibrary_tableSize(1)[OF None] show ?thesis
      by (simp add: importStep_fst)
  next
    case (Some e)
    with ni obtain sz alternative where e: "e = Own sz alternative" by (cases e) auto
    from Some e lookupLibrary_tableSize(2) have "tableSize ?n = sz" by blast
    with Some e Cons.prems(2) show ?thesis by (simp add: importStep_fst)
  qed
  from Cons.IH[OF rest this] show ?case by (simp add: add.assoc)
qed

lemma bundleSizeRule_codes:
  "filter (\<lambda>d. code d \<in> bundleCodes) (bundleSizeRule t) = bundleSizeRule t"
  by (simp add: bundleSizeRule_def bundleCodes_def buildDiagnostic_def)

text \<open>The two bundle findings of a scan are those of \<open>bundleSizeRule\<close> on the total of the loop.\<close>

lemma scan_bundle_findings:
  assumes "scan host policy text fileName = Some ds"
  obtains ms where "execLoop False importRegex None text 0 = Some ms"
    "filter (\<lambda>d. code d \<in> bundleCodes) ds =
       bundleSizeRule (fst (foldl importStep (Some 0, []) ms))"
proof -
  from assms obtain maxDepth imgDiags nextImgDiags fontFaceDiags bundleDiags scripts domainSet where
    s: "imgRule text = Some imgDiags"
    "nextImgRule text = Some nextImgDiags" "fontFaceRule text = Some fontFaceDiags"
    "bundleRule text = Some bundleDiags" "scriptLoop host text = Some scripts"
    "ds = titleRule policy text fileName @ metaDescRule policy text @ canonicalRule host policy text @
          jsonLdRule policy text fileName @ ogRule text @ htmlSizeRule text @ domSizeRule text @
          domDepthRule maxDepth @ headOrderRule text @ imgDiags @ nextImgDiags @ fontFaceDiags @
          fontPreloadRule text @ bundleDiags @ scriptDiags scripts @
          scriptCountRule host policy (scriptCount scripts) @ preconnectRule text domainSet"
    by (rule scan_Some)
  from s(4) obtain ms where ms: "execLoop False importRegex None text 0 = Some ms"
    and bd: "bundleDiags = snd (foldl importStep (Some 0, []) ms) @
                           bundleSizeRule (fst (foldl importStep (Some 0, []) ms))"
    by (auto simp: bundleRule_def importLoop_def split: prod.splits)
  define a where "a = titleRule policy text fileName @ metaDescRule policy text @ canonicalRule host policy text @
          jsonLdRule policy text fileName @ ogRule text @ htmlSizeRule text @ domSizeRule text @
          domDepthRule maxDepth @ headOrderRule text @ imgDiags @ nextImgDiags @ fontFaceDiags @
          fontPreloadRule text @ snd (foldl importStep (Some 0, []) ms)"
  define b where "b = scriptDiags scripts @
          scriptCountRule host policy (scriptCount scripts) @ preconnectRule text domainSet"
  have 1: "ds = a @ bundleSizeRule (fst (foldl importStep (Some 0, []) ms)) @ b"
    unfolding a_def b_def s(6) bd by simp
  have "unbundled (snd (foldl importStep (Some 0, []) ms))"
    by (rule importFold_unbundled) simp
  then have 2: "unbundled a"
    unfolding a_def
    by (simp add: titleRule_unbundled metaDescRule_unbundled canonicalRule_unbundled
        jsonLdRule_unbundled ogRule_unbundled htmlSizeRule_unbundled
        domSizeRule_unbundled domDepthRule_unbundled headOrderRule_unbundled
        imgRule_unbundled[OF s(1)] nextImgRule_unbundled[OF s(2)] fontFaceRule_unbundled[OF s(3)]
        fontPreloadRule_unbundled)
  have 3: "unbundled b"
    unfolding b_def
    by (simp add: scriptLoop_unbundled[OF s(5)] scriptCountRule_unbundled preconnectRule_unbundled)
  have fa: "filter (\<lambda>d. code d \<in> bundleCodes) a = []"
    by (rule unbundled_filter[OF 2])
  have fb: "filter (\<lambda>d. code d \<in> bundleCodes) b = []"
    by (rule unbundled_filter[OF 3])
  have "filter (\<lambda>d. code d \<in> bundleCodes) ds =
       bundleSizeRule (fst (foldl importStep (Some 0, []) ms))"
    by (subst 1) (simp only: filter_append fa fb bundleSizeRule_codes append_Nil append_Nil2)
  with ms show ?thesis by (rule that)
qed


text \<open>
  C6. Dependency cost. The package of an import is the first two segments of a path that
  starts with \<open>@\<close> and the first segment of any other. In a result of \<open>scanDocument\<close> the
  bundle findings are those of the sum of the table sizes of the imported packages (the
  warning above 500, the warning and the error \<open>WRS_JS_BUNDLE_SIZE_EXCEEDED\<close> above 1000) as
  long as no imported package has the name of a property the table object inherits
  (\<open>constructor\<close>, \<open>toString\<close>, ...). As soon as one has, the total is \<open>NaN\<close> and there is no
  bundle finding, whatever the packages of the table weigh.
\<close>

theorem C6_inherited_name_voids_total:
  assumes "scanDocument host policy text fileName = Diagnostics ds"
  shows "(\<forall>segs. segs \<noteq> [] \<and> (\<forall>s \<in> set segs. ch CHR ''/'' \<notin> set s) \<longrightarrow>
       packageNameOf (joinWith (asc ''/'') segs) =
         (if startsWith (joinWith (asc ''/'') segs) (asc ''@'')
          then joinWith (asc ''/'') (take 2 segs) else hd segs)) \<and>
   (\<exists>names. importedPackages text = Some names \<and>
     ((\<forall>n \<in> set names. lookupLibrary n \<noteq> Some Inherited) \<longrightarrow>
        filter (\<lambda>d. code d \<in> bundleCodes) ds = bundleSizeRule (Some (sum_list (map tableSize names)))) \<and>
     ((\<exists>n \<in> set names. lookupLibrary n = Some Inherited) \<longrightarrow>
        filter (\<lambda>d. code d \<in> bundleCodes) ds = []))"
proof -
  from assms have "scan host policy text fileName = Some ds"
    by (simp add: scanDocument_Diagnostics)
  then obtain ms where ms: "execLoop False importRegex None text 0 = Some ms"
    and f: "filter (\<lambda>d. code d \<in> bundleCodes) ds =
       bundleSizeRule (fst (foldl importStep (Some 0, []) ms))"
    by (rule scan_bundle_findings)
  let ?names = "map (\<lambda>m. packageNameOf (importPathOf m)) ms"
  have n: "importedPackages text = Some ?names" by (simp add: importedPackages_def ms)
  have a: "(\<forall>n \<in> set ?names. lookupLibrary n \<noteq> Some Inherited) \<longrightarrow>
        filter (\<lambda>d. code d \<in> bundleCodes) ds = bundleSizeRule (Some (sum_list (map tableSize ?names)))"
  proof
    assume "\<forall>n \<in> set ?names. lookupLibrary n \<noteq> Some Inherited"
    then have "\<forall>m \<in> set ms. lookupLibrary (packageNameOf (importPathOf m)) \<noteq> Some Inherited" by simp
    from importFold_total[OF this, of "(Some 0, [])" 0]
    show "filter (\<lambda>d. code d \<in> bundleCodes) ds = bundleSizeRule (Some (sum_list (map tableSize ?names)))"
      unfolding f by (simp add: comp_def)
  qed
  have b: "(\<exists>n \<in> set ?names. lookupLibrary n = Some Inherited) \<longrightarrow>
        filter (\<lambda>d. code d \<in> bundleCodes) ds = []"
  proof
    assume "\<exists>n \<in> set ?names. lookupLibrary n = Some Inherited"
    then have "\<exists>m \<in> set ms. lookupLibrary (packageNameOf (importPathOf m)) = Some Inherited" by simp
    from importFold_inherited[OF this, of "(Some 0, [])"]
    show "filter (\<lambda>d. code d \<in> bundleCodes) ds = []"
      unfolding f by (simp add: bundleSizeRule_def exceeds_def)
  qed
  have c: "\<forall>segs. segs \<noteq> [] \<and> (\<forall>s \<in> set segs. ch CHR ''/'' \<notin> set s) \<longrightarrow>
       packageNameOf (joinWith (asc ''/'') segs) =
         (if startsWith (joinWith (asc ''/'') segs) (asc ''@'')
          then joinWith (asc ''/'') (take 2 segs) else hd segs)"
    using packageNameOf_segments by blast
  from n a b have "\<exists>names. importedPackages text = Some names \<and>
     ((\<forall>n \<in> set names. lookupLibrary n \<noteq> Some Inherited) \<longrightarrow>
        filter (\<lambda>d. code d \<in> bundleCodes) ds = bundleSizeRule (Some (sum_list (map tableSize names)))) \<and>
     ((\<exists>n \<in> set names. lookupLibrary n = Some Inherited) \<longrightarrow>
        filter (\<lambda>d. code d \<in> bundleCodes) ds = [])"
    by blast
  with c show ?thesis by (rule conjI)
qed

theorem C6_inherited_name_voids_total_witness:
  "\<forall>host policy.
     packageNameOf (joinWith (asc ''/'') [asc ''@material-ui'', asc ''core'', asc ''Button'']) =
       joinWith (asc ''/'') [asc ''@material-ui'', asc ''core''] \<and>
     packageNameOf (joinWith (asc ''/'') [asc ''lodash'', asc ''debounce'']) = asc ''lodash'' \<and>
     importedPackages (asc ''import B from '' @ [sq] @ asc ''@material-ui/core/Button'' @ [sq] @
        asc '';require('' @ [dq] @ asc ''xlsx'' @ [dq] @ asc '');require('' @ [sq] @ asc ''constructor'' @ [sq] @ asc '')'') =
       Some [asc ''@material-ui/core'', asc ''xlsx'', asc ''constructor''] \<and>
     map tableSize [asc ''@material-ui/core'', asc ''xlsx'', asc ''constructor''] = [350, 800, 0] \<and>
     (\<exists>ds. scanDocument host policy
        (asc ''import B from '' @ [sq] @ asc ''@material-ui/core/Button'' @ [sq] @
         asc '';require('' @ [dq] @ asc ''xlsx'' @ [dq] @ asc '');require('' @ [sq] @ asc ''constructor'' @ [sq] @ asc '')'')
        (asc ''app.js'') = Diagnostics ds \<and>
        filter (\<lambda>d. code d \<in> bundleCodes) ds = []) \<and>
     importedPackages (asc ''import B from '' @ [sq] @ asc ''@material-ui/core/Button'' @ [sq] @
        asc '';require('' @ [dq] @ asc ''xlsx'' @ [dq] @ asc '')'') =
       Some [asc ''@material-ui/core'', asc ''xlsx''] \<and>
     (\<exists>ds. scanDocument host policy
        (asc ''import B from '' @ [sq] @ asc ''@material-ui/core/Button'' @ [sq] @
         asc '';require('' @ [dq] @ asc ''xlsx'' @ [dq] @ asc '')'')
        (asc ''app.js'') = Diagnostics ds \<and>
        map code (filter (\<lambda>d. code d \<in> bundleCodes) ds) =
          [''WRS_JS_BUNDLE_SIZE_WARNING'', ''WRS_JS_BUNDLE_SIZE_EXCEEDED''])"
proof (intro allI)
  fix host policy
  let ?F = "asc ''import B from '' @ [sq] @ asc ''@material-ui/core/Button'' @ [sq] @
        asc '';require('' @ [dq] @ asc ''xlsx'' @ [dq] @ asc '');require('' @ [sq] @ asc ''constructor'' @ [sq] @ asc '')''"
  let ?G = "asc ''import B from '' @ [sq] @ asc ''@material-ui/core/Button'' @ [sq] @
        asc '';require('' @ [dq] @ asc ''xlsx'' @ [dq] @ asc '')''"
  let ?n = "asc ''app.js''"
  let ?bc = "\<lambda>d. code d \<in> bundleCodes"
  have n: "test False supportedRe ?n" by code_simp
  have "byteLength ?F \<le> 1000" by code_simp
  then have sF: "fileSizeKB ?F \<le> 500" by (simp add: fileSizeKB_def)
  have "byteLength ?G \<le> 1000" by code_simp
  then have sG: "fileSizeKB ?G \<le> 500" by (simp add: fileSizeKB_def)
  have pF: "importedPackages ?F = Some [asc ''@material-ui/core'', asc ''xlsx'', asc ''constructor'']"
    by code_simp
  have pG: "importedPackages ?G = Some [asc ''@material-ui/core'', asc ''xlsx'']"
    by code_simp
  have ts: "map tableSize [asc ''@material-ui/core'', asc ''xlsx'', asc ''constructor''] = [350, 800, 0]"
    by code_simp
  have ih: "\<exists>n \<in> set [asc ''@material-ui/core'', asc ''xlsx'', asc ''constructor'']. lookupLibrary n = Some Inherited"
    by code_simp
  have ni: "\<forall>n \<in> set [asc ''@material-ui/core'', asc ''xlsx'']. lookupLibrary n \<noteq> Some Inherited"
    by code_simp
  have tg: "sum_list (map tableSize [asc ''@material-ui/core'', asc ''xlsx'']) = 1150"
    by code_simp
  from scanDocument_scanned[OF n sF] obtain dsF where
    dsF: "scanDocument host policy ?F ?n = Diagnostics dsF" by blast
  from scanDocument_scanned[OF n sG] obtain dsG where
    dsG: "scanDocument host policy ?G ?n = Diagnostics dsG" by blast
  note c6F = C6_inherited_name_voids_total[OF dsF]
  note c6G = C6_inherited_name_voids_total[OF dsG]
  have s1: "[asc ''@material-ui'', asc ''core'', asc ''Button''] \<noteq> [] \<and>
     (\<forall>s \<in> set [asc ''@material-ui'', asc ''core'', asc ''Button'']. ch CHR ''/'' \<notin> set s)"
    by code_simp
  have w1: "startsWith (joinWith (asc ''/'') [asc ''@material-ui'', asc ''core'', asc ''Button'']) (asc ''@'')"
    by code_simp
  from c6F[THEN conjunct1, rule_format, OF s1] w1
  have k1: "packageNameOf (joinWith (asc ''/'') [asc ''@material-ui'', asc ''core'', asc ''Button'']) =
     joinWith (asc ''/'') [asc ''@material-ui'', asc ''core'']"
    by simp
  have s2: "[asc ''lodash'', asc ''debounce''] \<noteq> [] \<and>
     (\<forall>s \<in> set [asc ''lodash'', asc ''debounce'']. ch CHR ''/'' \<notin> set s)"
    by code_simp
  have w2: "\<not> startsWith (joinWith (asc ''/'') [asc ''lodash'', asc ''debounce'']) (asc ''@'')"
    by code_simp
  from c6F[THEN conjunct1, rule_format, OF s2] w2
  have k2: "packageNameOf (joinWith (asc ''/'') [asc ''lodash'', asc ''debounce'']) = asc ''lodash''"
    by simp
  from c6F[THEN conjunct2] pF ih have eF: "filter ?bc dsF = []"
    by auto
  from c6G[THEN conjunct2] pG ni
  have "filter ?bc dsG = bundleSizeRule (Some (sum_list (map tableSize [asc ''@material-ui/core'', asc ''xlsx''])))"
    by auto
  then have eG: "map code (filter ?bc dsG) = [''WRS_JS_BUNDLE_SIZE_WARNING'', ''WRS_JS_BUNDLE_SIZE_EXCEEDED'']"
    unfolding tg by (simp add: bundleSizeRule_def exceeds_def buildDiagnostic_def)
  show "packageNameOf (joinWith (asc ''/'') [asc ''@material-ui'', asc ''core'', asc ''Button'']) =
       joinWith (asc ''/'') [asc ''@material-ui'', asc ''core''] \<and>
     packageNameOf (joinWith (asc ''/'') [asc ''lodash'', asc ''debounce'']) = asc ''lodash'' \<and>
     importedPackages ?F = Some [asc ''@material-ui/core'', asc ''xlsx'', asc ''constructor''] \<and>
     map tableSize [asc ''@material-ui/core'', asc ''xlsx'', asc ''constructor''] = [350, 800, 0] \<and>
     (\<exists>ds. scanDocument host policy ?F ?n = Diagnostics ds \<and> filter ?bc ds = []) \<and>
     importedPackages ?G = Some [asc ''@material-ui/core'', asc ''xlsx''] \<and>
     (\<exists>ds. scanDocument host policy ?G ?n = Diagnostics ds \<and>
        map code (filter ?bc ds) = [''WRS_JS_BUNDLE_SIZE_WARNING'', ''WRS_JS_BUNDLE_SIZE_EXCEEDED''])"
  proof (intro conjI)
    show "packageNameOf (joinWith (asc ''/'') [asc ''@material-ui'', asc ''core'', asc ''Button'']) =
       joinWith (asc ''/'') [asc ''@material-ui'', asc ''core'']" by (rule k1)
    show "packageNameOf (joinWith (asc ''/'') [asc ''lodash'', asc ''debounce'']) = asc ''lodash''" by (rule k2)
    show "importedPackages ?F = Some [asc ''@material-ui/core'', asc ''xlsx'', asc ''constructor'']" by (rule pF)
    show "map tableSize [asc ''@material-ui/core'', asc ''xlsx'', asc ''constructor''] = [350, 800, 0]" by (rule ts)
    show "\<exists>ds. scanDocument host policy ?F ?n = Diagnostics ds \<and> filter ?bc ds = []"
      by (intro exI[of _ dsF] conjI) (rule dsF, rule eF)
    show "importedPackages ?G = Some [asc ''@material-ui/core'', asc ''xlsx'']" by (rule pG)
    show "\<exists>ds. scanDocument host policy ?G ?n = Diagnostics ds \<and>
        map code (filter ?bc ds) = [''WRS_JS_BUNDLE_SIZE_WARNING'', ''WRS_JS_BUNDLE_SIZE_EXCEEDED'']"
      by (intro exI[of _ dsG] conjI) (rule dsG, rule eG)
  qed
qed

section \<open>The policy file\<close>

text \<open>
  \<open>readPolicy\<close> returns what \<open>JSON.parse\<close> gives, or \<open>{}\<close>: a JSON value, whatever the
  interface \<open>Policy\<close> says. An object is the list of its properties (each name once).
\<close>

datatype json =
    JNull
  | JBool bool
  | JNum real
  | JStr jsstring
  | JArr "json list"
  | JObj "(jsstring \<times> json) list"

text \<open>
  The workspace as \<open>readPolicy\<close> sees it: whether there is a first workspace folder, and
  \<open>JSON.parse(fs.readFileSync(policyPath, 'utf8'))\<close>, \<open>None\<close> when either call throws.
\<close>

record Workspace =
  workspaceFolder :: bool
  policyFile :: "json option"

definition readPolicy :: "Workspace \<Rightarrow> json" where
  "readPolicy w =
     (if \<not> workspaceFolder w then JObj []
      else (case policyFile w of None \<Rightarrow> JObj [] | Some content \<Rightarrow> content))"

text \<open>
  \<open>v.name\<close> for a value \<open>v\<close> that is neither \<open>null\<close> nor \<open>undefined\<close>, and a name the
  program reads (\<open>seo\<close>, \<open>perf\<close> and the field names): \<open>None\<close> is \<open>undefined\<close>. Only an
  object has such a property.
\<close>

fun getProp :: "json \<Rightarrow> jsstring \<Rightarrow> json option" where
  "getProp (JObj kvs) name = map_of kvs name"
| "getProp _ name = None"

text \<open>
  The operators \<open>x?.name\<close> and \<open>x ?? dflt\<close>: both treat \<open>undefined\<close> and \<open>null\<close> alike.
\<close>

fun optChain :: "json option \<Rightarrow> jsstring \<Rightarrow> json option" where
  "optChain None name = None"
| "optChain (Some JNull) name = None"
| "optChain (Some v) name = getProp v name"

fun orElse :: "json option \<Rightarrow> json \<Rightarrow> json" where
  "orElse None dflt = dflt"
| "orElse (Some JNull) dflt = dflt"
| "orElse (Some v) dflt = v"

text \<open>
  \<open>policy.section?.field ?? dflt\<close>. Reading \<open>policy.section\<close> of \<open>null\<close> throws a
  \<open>TypeError\<close>: the result is then \<open>None\<close>.
\<close>

definition resolveField :: "json \<Rightarrow> jsstring \<Rightarrow> jsstring \<Rightarrow> json \<Rightarrow> json option" where
  "resolveField policy sec fld dflt =
     (if policy = JNull then None
      else Some (orElse (optChain (getProp policy sec) fld) dflt))"

text \<open>
  A policy of the interface \<open>Policy\<close> as the JSON value it is, to compare the reads of
  the scan with \<open>resolveField\<close>.
\<close>

definition optField :: "string \<Rightarrow> ('a \<Rightarrow> json) \<Rightarrow> 'a option \<Rightarrow> (jsstring \<times> json) list" where
  "optField name enc v = (case v of None \<Rightarrow> [] | Some x \<Rightarrow> [(asc name, enc x)])"

definition encodeSeo :: "SeoPolicy \<Rightarrow> json" where
  "encodeSeo s = JObj
     (optField ''titleMin'' JNum (titleMin s) @ optField ''titleMax'' JNum (titleMax s) @
      optField ''metaDescriptionMin'' JNum (metaDescriptionMin s) @
      optField ''metaDescriptionMax'' JNum (metaDescriptionMax s) @
      optField ''requireCanonical'' JBool (requireCanonical s) @
      optField ''requireJsonLdFor'' (\<lambda>xs. JArr (map JStr xs)) (requireJsonLdFor s))"

definition encodePerf :: "PerfPolicy \<Rightarrow> json" where
  "encodePerf q = JObj
     (optField ''maxThirdPartyScriptsPerPage'' JNum (maxThirdPartyScriptsPerPage q) @
      optField ''lcpImageKB'' JNum (lcpImageKB q) @
      optField ''requireFontDisplaySwap'' JBool (requireFontDisplaySwap q))"

definition encodePolicy :: "Policy \<Rightarrow> json" where
  "encodePolicy p = JObj (optField ''seo'' encodeSeo (seo p) @ optField ''perf'' encodePerf (perf p))"

text \<open>A value with one field of one section set, the rest as it was.\<close>

definition withField :: "json \<Rightarrow> jsstring \<Rightarrow> jsstring \<Rightarrow> json \<Rightarrow> json" where
  "withField policy sec fld v =
     (let kvs = (case policy of JObj kvs \<Rightarrow> kvs | _ \<Rightarrow> []);
          fs = (case map_of kvs sec of Some (JObj fs) \<Rightarrow> fs | _ \<Rightarrow> [])
      in JObj (AList.update sec (JObj (AList.update fld v fs)) kvs))"

lemma of_char_lt: "(of_char x :: nat) < 256"
proof -
  have "(of_char x :: nat) mod 256 = of_char x" by simp
  then show ?thesis by (metis mod_less_divisor zero_less_numeral)
qed

lemma unat_ch: "unat (ch x) = of_char x"
proof -
  have "ch x = of_nat (of_char x)" by (simp add: ch_def of_nat_of_char)
  moreover have "(of_char x :: nat) < 2 ^ 16"
  proof -
    have "(256::nat) \<le> 2 ^ 16" by simp
    with of_char_lt[of x] show ?thesis by (rule less_le_trans)
  qed
  ultimately show ?thesis by (simp add: unat_of_nat take_bit_nat_eq_self)
qed

lemma ch_eq_iff: "ch a = ch b \<longleftrightarrow> a = b"
proof
  assume "ch a = ch b"
  then have "unat (ch a) = unat (ch b)" by simp
  then have "(of_char a :: nat) = of_char b" by (simp only: unat_ch)
  then show "a = b" by simp
qed simp

lemma asc_eq_iff: "asc a = asc b \<longleftrightarrow> a = b"
  unfolding asc_def by (simp add: inj_map_eq_map inj_on_def ch_eq_iff)

lemma map_of_optField_last:
  "map_of (optField n enc v) k = (if k = asc n then map_option enc v else None)"
  by (cases v) (simp_all add: optField_def)

lemma getProp_encodePolicy:
  "getProp (encodePolicy p) (asc ''seo'') = map_option encodeSeo (seo p)"
  "getProp (encodePolicy p) (asc ''perf'') = map_option encodePerf (perf p)"
  by (simp_all add: encodePolicy_def map_add_def map_of_optField_last asc_eq_iff
      split: option.splits)

lemma getProp_encodeSeo:
  "getProp (encodeSeo s) (asc ''titleMin'') = map_option JNum (titleMin s)"
  "getProp (encodeSeo s) (asc ''titleMax'') = map_option JNum (titleMax s)"
  "getProp (encodeSeo s) (asc ''metaDescriptionMin'') = map_option JNum (metaDescriptionMin s)"
  "getProp (encodeSeo s) (asc ''metaDescriptionMax'') = map_option JNum (metaDescriptionMax s)"
  "getProp (encodeSeo s) (asc ''requireCanonical'') = map_option JBool (requireCanonical s)"
  "getProp (encodeSeo s) (asc ''requireJsonLdFor'') =
     map_option (\<lambda>xs. JArr (map JStr xs)) (requireJsonLdFor s)"
  by (simp_all add: encodeSeo_def map_add_def map_of_optField_last asc_eq_iff
      split: option.splits)

lemma getProp_encodePerf:
  "getProp (encodePerf q) (asc ''maxThirdPartyScriptsPerPage'') =
     map_option JNum (maxThirdPartyScriptsPerPage q)"
  by (simp add: encodePerf_def map_add_def map_of_optField_last asc_eq_iff
      split: option.splits)

lemma optChain_Some: "v \<noteq> JNull \<Longrightarrow> optChain (Some v) name = getProp v name"
  by (cases v) simp_all

lemma orElse_Some: "v \<noteq> JNull \<Longrightarrow> orElse (Some v) dflt = v"
  by (cases v) simp_all

lemma resolveField_encoded:
  assumes "getProp policy sec = map_option encSec s" "policy \<noteq> JNull"
    "\<And>x. encSec x \<noteq> JNull" "\<And>x. getProp (encSec x) fld = map_option enc (field x)"
    "\<And>v. enc v \<noteq> JNull"
  shows "resolveField policy sec fld (enc dflt) = Some (enc (orDefault s field dflt))"
proof (cases s)
  case None
  then show ?thesis using assms(2) by (simp add: resolveField_def assms(1) orDefault_def)
next
  case (Some x)
  show ?thesis
  proof (cases "field x")
    case None
    with Some show ?thesis using assms(2)
      by (simp add: resolveField_def assms(1) orDefault_def optChain_Some[OF assms(3)] assms(4))
  next
    case (Some v)
    with \<open>s = Some x\<close> show ?thesis using assms(2)
      by (simp add: resolveField_def assms(1) orDefault_def optChain_Some[OF assms(3)] assms(4)
          orElse_Some[OF assms(5)])
  qed
qed

lemma encode_not_null: "encodePolicy p \<noteq> JNull" "encodeSeo s \<noteq> JNull" "encodePerf q \<noteq> JNull"
  by (simp_all add: encodePolicy_def encodeSeo_def encodePerf_def)

lemma typed_reads_seo:
  "resolveField (encodePolicy p) (asc ''seo'') (asc ''titleMin'') (JNum 30) = Some (JNum (theTitleMin p))"
  "resolveField (encodePolicy p) (asc ''seo'') (asc ''titleMax'') (JNum 60) = Some (JNum (theTitleMax p))"
  "resolveField (encodePolicy p) (asc ''seo'') (asc ''metaDescriptionMin'') (JNum 50) = Some (JNum (theDescMin p))"
  "resolveField (encodePolicy p) (asc ''seo'') (asc ''metaDescriptionMax'') (JNum 160) = Some (JNum (theDescMax p))"
  "resolveField (encodePolicy p) (asc ''seo'') (asc ''requireCanonical'') (JBool (cfgRequireCanonical host)) =
     Some (JBool (theRequireCanonical host p))"
  unfolding theTitleMin_def theTitleMax_def theDescMin_def theDescMax_def theRequireCanonical_def
  by (rule resolveField_encoded[where encSec = encodeSeo],
      (simp add: getProp_encodePolicy getProp_encodeSeo encode_not_null)+)+

lemma typed_reads_jsonld:
  "resolveField (encodePolicy p) (asc ''seo'') (asc ''requireJsonLdFor'') (JArr []) =
     Some (JArr (map JStr (theRequireJsonLdFor p)))"
  unfolding theRequireJsonLdFor_def
  using resolveField_encoded[where encSec = encodeSeo and enc = "\<lambda>xs. JArr (map JStr xs)"
      and policy = "encodePolicy p" and sec = "asc ''seo''" and s = "seo p"
      and fld = "asc ''requireJsonLdFor''" and field = requireJsonLdFor and dflt = "[]"]
  by (simp add: getProp_encodePolicy getProp_encodeSeo encode_not_null)

lemma typed_reads_perf:
  "resolveField (encodePolicy p) (asc ''perf'') (asc ''maxThirdPartyScriptsPerPage'')
       (JNum (cfgMaxThirdPartyScriptsPerPage host)) = Some (JNum (theMaxTP host p))"
  unfolding theMaxTP_def
  by (rule resolveField_encoded[where encSec = encodePerf],
      (simp add: getProp_encodePolicy getProp_encodePerf encode_not_null)+)

lemma resolveField_default:
  assumes "policy \<noteq> JNull"
      and "getProp policy sec = None \<or> getProp policy sec = Some JNull \<or>
           (\<exists>s. getProp policy sec = Some s \<and> (getProp s fld = None \<or> getProp s fld = Some JNull))"
  shows "resolveField policy sec fld dflt = Some dflt"
proof -
  from assms(2) have "orElse (optChain (getProp policy sec) fld) dflt = dflt"
  proof (elim disjE exE conjE)
    fix s assume a: "getProp policy sec = Some s" "getProp s fld = None"
    then show ?thesis by (cases s) simp_all
  next
    fix s assume a: "getProp policy sec = Some s" "getProp s fld = Some JNull"
    then show ?thesis by (cases s) simp_all
  qed simp_all
  with assms(1) show ?thesis by (simp add: resolveField_def)
qed

lemma resolveField_supplied:
  assumes "getProp policy sec = Some s" "getProp s fld = Some v" "v \<noteq> JNull"
  shows "resolveField policy sec fld dflt = Some v"
proof -
  from assms(1) have p: "policy \<noteq> JNull" by (cases policy) auto
  from assms(2) have s: "s \<noteq> JNull" by (cases s) auto
  show ?thesis
    using p by (simp add: resolveField_def assms(1) optChain_Some[OF s] assms(2) orElse_Some[OF assms(3)])
qed

lemma getProp_withField:
  "getProp (withField policy sec' fld' v) sec =
     (if sec = sec' then Some (JObj (AList.update fld' v
            (case getProp policy sec' of Some (JObj fs) \<Rightarrow> fs | _ \<Rightarrow> [])))
      else getProp policy sec)"
  by (cases policy) (auto simp: withField_def Let_def update_conv')

lemma resolveField_withField:
  assumes "policy \<noteq> JNull" "(sec, fld) \<noteq> (sec', fld')"
  shows "resolveField (withField policy sec' fld' v) sec fld dflt = resolveField policy sec fld dflt"
proof -
  have w: "withField policy sec' fld' v \<noteq> JNull" by (simp add: withField_def Let_def)
  show ?thesis
  proof (cases "sec = sec'")
    case False
    then show ?thesis using w assms(1) by (simp add: resolveField_def getProp_withField)
  next
    case True
    with assms(2) have f: "fld \<noteq> fld'" by simp
    have "optChain (getProp (withField policy sec' fld' v) sec') fld = optChain (getProp policy sec') fld"
    proof (cases "getProp policy sec'")
      case None
      then show ?thesis using f by (simp add: getProp_withField update_conv')
    next
      case (Some s)
      then show ?thesis using f by (cases s) (simp_all add: getProp_withField update_conv')
    qed
    then show ?thesis using w assms(1) True by (simp add: resolveField_def)
  qed
qed


text \<open>
  C4 as stated fails: a value of the wrong type is not replaced by the default. With a
  policy file that gives \<open>seo.titleMin\<close> as a string, \<open>policy.seo?.titleMin ?? 30\<close> is that
  string.
\<close>

theorem C4_wrong_type_counterexample:
  "resolveField
     (readPolicy \<lparr>workspaceFolder = True,
                  policyFile = Some (JObj [(asc ''seo'', JObj [(asc ''titleMin'', JStr (asc ''thirty''))])])\<rparr>)
     (asc ''seo'') (asc ''titleMin'') (JNum 30) = Some (JStr (asc ''thirty'')) \<and>
   resolveField
     (readPolicy \<lparr>workspaceFolder = True,
                  policyFile = Some (JObj [(asc ''seo'', JObj [(asc ''titleMin'', JStr (asc ''thirty''))])])\<rparr>)
     (asc ''seo'') (asc ''titleMin'') (JNum 30) \<noteq> Some (JNum 30)"
  by (simp add: readPolicy_def resolveField_def)

text \<open>
  C4, amended. Policy resolution is per field. With no workspace folder, or a policy file
  that cannot be read or parsed, every field resolves to its default and nothing is
  thrown. For a parsed configuration other than \<open>null\<close>, a field read
  \<open>policy.section?.field ?? dflt\<close> never throws; it gives the default when the section or
  the field is absent or \<open>null\<close>, and the supplied value otherwise, whatever its type; and
  setting another field to any value leaves it as it was.
\<close>

theorem C4_policy_resolution:
  "(\<forall>w. \<not> workspaceFolder w \<or> policyFile w = None \<longrightarrow>
        resolveField (readPolicy w) sec fld dflt = Some dflt) \<and>
   (policy \<noteq> JNull \<longrightarrow>
      (\<exists>v. resolveField policy sec fld dflt = Some v) \<and>
      (getProp policy sec = None \<or> getProp policy sec = Some JNull \<or>
       (\<exists>s. getProp policy sec = Some s \<and> (getProp s fld = None \<or> getProp s fld = Some JNull)) \<longrightarrow>
          resolveField policy sec fld dflt = Some dflt) \<and>
      (\<forall>s v. getProp policy sec = Some s \<and> getProp s fld = Some v \<and> v \<noteq> JNull \<longrightarrow>
          resolveField policy sec fld dflt = Some v) \<and>
      (\<forall>sec' fld' v. (sec, fld) \<noteq> (sec', fld') \<longrightarrow>
          resolveField (withField policy sec' fld' v) sec fld dflt =
          resolveField policy sec fld dflt))"
proof (intro conjI allI impI)
  fix w :: Workspace
  assume "\<not> workspaceFolder w \<or> policyFile w = None"
  then have "readPolicy w = JObj []" by (auto simp: readPolicy_def)
  then show "resolveField (readPolicy w) sec fld dflt = Some dflt"
    by (simp add: resolveField_def)
next
  assume "policy \<noteq> JNull"
  then show "\<exists>v. resolveField policy sec fld dflt = Some v" by (simp add: resolveField_def)
next
  assume "policy \<noteq> JNull"
    and "getProp policy sec = None \<or> getProp policy sec = Some JNull \<or>
       (\<exists>s. getProp policy sec = Some s \<and> (getProp s fld = None \<or> getProp s fld = Some JNull))"
  then show "resolveField policy sec fld dflt = Some dflt" by (rule resolveField_default)
next
  fix s v
  assume "getProp policy sec = Some s \<and> getProp s fld = Some v \<and> v \<noteq> JNull"
  then show "resolveField policy sec fld dflt = Some v"
    using resolveField_supplied by blast
next
  fix sec' fld' v
  assume "policy \<noteq> JNull" "(sec, fld) \<noteq> (sec', fld')"
  then show "resolveField (withField policy sec' fld' v) sec fld dflt =
          resolveField policy sec fld dflt" by (rule resolveField_withField)
qed

theorem C4_policy_resolution_witness:
  "resolveField (readPolicy \<lparr>workspaceFolder = False, policyFile = None\<rparr>)
      (asc ''seo'') (asc ''titleMin'') (JNum 30) = Some (JNum 30) \<and>
   resolveField (JObj [(asc ''seo'', JObj [(asc ''titleMin'', JNum 40)])])
      (asc ''seo'') (asc ''titleMin'') (JNum 30) = Some (JNum 40) \<and>
   resolveField (JObj [(asc ''seo'', JObj [(asc ''titleMin'', JNum 40)])])
      (asc ''seo'') (asc ''titleMax'') (JNum 60) = Some (JNum 60) \<and>
   resolveField
      (withField (JObj [(asc ''seo'', JObj [(asc ''titleMin'', JNum 40)])])
         (asc ''seo'') (asc ''titleMax'') (JStr (asc ''sixty'')))
      (asc ''seo'') (asc ''titleMin'') (JNum 30) = Some (JNum 40)"
proof -
  let ?p = "JObj [(asc ''seo'', JObj [(asc ''titleMin'', JNum 40)])]"
  note c4 = C4_policy_resolution
  have n: "?p \<noteq> JNull" by simp
  have 1: "resolveField (readPolicy \<lparr>workspaceFolder = False, policyFile = None\<rparr>)
      (asc ''seo'') (asc ''titleMin'') (JNum 30) = Some (JNum 30)"
    using c4[THEN conjunct1, rule_format, of "\<lparr>workspaceFolder = False, policyFile = None\<rparr>"]
    by simp
  have g: "getProp ?p (asc ''seo'') = Some (JObj [(asc ''titleMin'', JNum 40)]) \<and>
           getProp (JObj [(asc ''titleMin'', JNum 40)]) (asc ''titleMin'') = Some (JNum 40) \<and>
           JNum 40 \<noteq> JNull"
    by simp
  have 2: "resolveField ?p (asc ''seo'') (asc ''titleMin'') (JNum 30) = Some (JNum 40)"
    using c4[of _ _ _ ?p, THEN conjunct2, rule_format, OF n, THEN conjunct2, THEN conjunct2,
        THEN conjunct1, rule_format, OF g] .
  have h: "getProp ?p (asc ''seo'') = None \<or> getProp ?p (asc ''seo'') = Some JNull \<or>
       (\<exists>s. getProp ?p (asc ''seo'') = Some s \<and>
            (getProp s (asc ''titleMax'') = None \<or> getProp s (asc ''titleMax'') = Some JNull))"
    by (simp add: asc_eq_iff)
  have 3: "resolveField ?p (asc ''seo'') (asc ''titleMax'') (JNum 60) = Some (JNum 60)"
    using c4[of _ _ _ ?p, THEN conjunct2, rule_format, OF n, THEN conjunct2,
        THEN conjunct1, rule_format, OF h] .
  have d: "(asc ''seo'', asc ''titleMin'') \<noteq> (asc ''seo'', asc ''titleMax'')"
    by (simp add: asc_eq_iff)
  have 4: "resolveField (withField ?p (asc ''seo'') (asc ''titleMax'') (JStr (asc ''sixty'')))
      (asc ''seo'') (asc ''titleMin'') (JNum 30) = Some (JNum 40)"
    using c4[of _ _ _ ?p, THEN conjunct2, rule_format, OF n, THEN conjunct2, THEN conjunct2,
        THEN conjunct2, rule_format, OF d] 2 by simp
  from 1 2 3 4 show ?thesis by (intro conjI)
qed

section \<open>The first match of a pattern on a text of known shape\<close>



text \<open>A pattern that takes exactly one code unit, those that \<open>acc\<close> accepts.\<close>

definition isSingle :: "bool \<Rightarrow> regex \<Rightarrow> (cu \<Rightarrow> bool) \<Rightarrow> bool" where
  "isSingle ic r acc \<longleftrightarrow>
     (\<forall>p x s cs. rmatch ic r (p, x # s, cs) = (if acc x then [(Some x, s, cs)] else [])) \<and>
     (\<forall>p cs. rmatch ic r (p, [], cs) = [])"

lemma isSingle_Chr: "isSingle ic (Chr a) (chrEq ic a)"
  by (simp add: isSingle_def)















section \<open>Searching a text of known shape\<close>

















section \<open>Documents as sequences of tags and text\<close>

datatype piece = Text jsstring | OpenTag jsstring jsstring | CloseTag jsstring | SelfClosing jsstring jsstring

definition lt :: cu where "lt = ch CHR ''<''"
definition gt :: cu where "gt = ch CHR ''>''"
definition slash :: cu where "slash = ch CHR ''/''"

fun renderPiece :: "piece \<Rightarrow> jsstring" where
  "renderPiece (Text t) = t"
| "renderPiece (OpenTag name attrs) = lt # name @ attrs @ [gt]"
| "renderPiece (CloseTag name) = lt # slash # name @ [gt]"
| "renderPiece (SelfClosing name attrs) = lt # name @ attrs @ [slash, gt]"

definition render :: "piece list \<Rightarrow> jsstring" where
  "render ps = concat (map renderPiece ps)"





















section \<open>The element counter on a document of tags and text\<close>
























section \<open>The depth tracker\<close>



















end
